theory Spec2Isabelle
  imports Complex_Main
begin

section \<open>JavaScript values and completions\<close>

text \<open>
  The browser client handles whatever \<open>JSON.parse\<close> returns, so inbound messages, the
  exercise catalogue and the selected exercise are JSON values. A \<open>jsval\<close> adds
  \<open>undefined\<close> (\<open>None\<close>), which a missing property or a failed \<open>Array.find\<close> yields.
\<close>

text \<open>\<open>JObj\<close> lists the own properties of an object, each name once.\<close>

datatype json =
    JNull
  | JBool bool
  | JNum real
  | JStr string
  | JArr "json list"
  | JObj "(string \<times> json) list"

type_synonym jsval = "json option"

datatype exn = SyntaxError | TypeError | TimeoutError

datatype 'a completion = Normal 'a | Throw exn

text \<open>Truthiness as \<open>if (v)\<close> and \<open>!v\<close> test it.\<close>

fun truthy :: "jsval \<Rightarrow> bool" where
  "truthy None = False"
| "truthy (Some JNull) = False"
| "truthy (Some (JBool b)) = b"
| "truthy (Some (JNum n)) = (n \<noteq> 0)"
| "truthy (Some (JStr s)) = (s \<noteq> [])"
| "truthy (Some (JArr xs)) = True"
| "truthy (Some (JObj kvs)) = True"

text \<open>
  Property read \<open>v.k\<close> for the property names the client uses (\<open>type\<close>, \<open>data\<close>, \<open>count\<close>,
  \<open>stage\<close>, \<open>angle\<close>, \<open>actions\<close>, \<open>message\<close>, \<open>id\<close>, \<open>name\<close>): a TypeError on
  \<open>null\<close> and \<open>undefined\<close>, the member of an object, \<open>undefined\<close> on every other value
  (none of these names is inherited by numbers, strings, booleans or arrays).
\<close>

fun get_prop :: "jsval \<Rightarrow> string \<Rightarrow> jsval completion" where
  "get_prop None k = Throw TypeError"
| "get_prop (Some JNull) k = Throw TypeError"
| "get_prop (Some (JObj kvs)) k = Normal (map_of kvs k)"
| "get_prop (Some v) k = Normal None"

text \<open>
  Strict equality \<open>===\<close>. Primitives compare by value. Objects and arrays compare by
  identity; the two sides always come from different parse results here, so they are
  never identical.
\<close>

fun strict_eq :: "jsval \<Rightarrow> jsval \<Rightarrow> bool" where
  "strict_eq None None = True"
| "strict_eq (Some JNull) (Some JNull) = True"
| "strict_eq (Some (JBool a)) (Some (JBool b)) = (a = b)"
| "strict_eq (Some (JNum a)) (Some (JNum b)) = (a = b)"
| "strict_eq (Some (JStr a)) (Some (JStr b)) = (a = b)"
| "strict_eq x y = False"

section \<open>The application state\<close>

text \<open>\<open>WebSocket.readyState\<close>.\<close>

datatype ready_state = CONNECTING | OPEN | CLOSING | CLOSED

text \<open>The object literals that the \<open>WebSocketClient\<close> wrappers hand to \<open>send\<close>.\<close>

datatype message =
    Video jsval jsval
  | Start_evaluation jsval
  | Stop_evaluation
  | Action_select jsval
  | Action_stop
  | Get_actions
  | Settings_change jsval

text \<open>
  \<open>WebSocketClient\<close>: \<open>socket\<close> is \<open>None\<close> for \<open>null\<close>, else the ready state of the
  socket object; \<open>transmitted\<close> lists the messages whose \<open>JSON.stringify\<close> text was
  passed to \<open>socket.send\<close>, oldest first.
\<close>

record ws_client =
  socket :: "ready_state option"
  connected :: bool
  transmitted :: "message list"

text \<open>
  Text shown in a DOM element, kept symbolic where the browser converts a value:
  \<open>ToString v\<close> is the string conversion of \<open>v\<close>, \<open>UpperCase s\<close> is
  \<open>s.toUpperCase()\<close>, \<open>Fixed1 a\<close> is \<open>a.toFixed(1)\<close> followed by the degree sign.
\<close>

datatype dom_text = Lit string | ToString jsval | UpperCase string | Fixed1 real

text \<open>\<open>ActionSelector\<close>, with the text of its four display elements.\<close>

record selector =
  actions :: jsval
  selectedAction :: jsval
  currentActionElement :: dom_text
  countElement :: dom_text
  stageElement :: dom_text
  stageColor :: string
  angleElement :: dom_text

text \<open>The \<open>alert\<close> boxes of main.js, by the place that raises them.\<close>

datatype alert =
    Select_action_first
  | Connection_not_open
  | Start_failed
  | Stop_failed
  | Cannot_fetch_actions
  | Init_failed

text \<open>
  Console output: every \<open>console.error\<close> and \<open>console.warn\<close> of the modelled methods,
  and the \<open>console.log\<close> of the unknown-type branch. Progress \<open>console.log\<close> lines are
  left out.
\<close>

datatype console_entry =
    Send_refused
  | Callback_failed string exn
  | Message_failed exn
  | Unknown_type jsval
  | Backend_warning jsval
  | Backend_error jsval
  | Fetch_message_failed exn
  | Socket_failed
  | Fetch_failed
  | Rest_failed
  | Rest_fallback_failed
  | Start_error exn
  | Stop_error exn

text \<open>Calls into the result sink: \<open>handleProcessedFrame(message)\<close> and \<open>updateStats({count, stage, angle})\<close>.\<close>

datatype delivery = Frame json | Stats jsval jsval jsval

datatype promise = Not_started | Pending | Fulfilled | Rejected

text \<open>
  \<open>RehabEvaluationApp\<close> once \<open>init\<close> has built the core modules and bound the buttons.
  \<^item> \<open>customActionsManager\<close>: whether \<open>initOptionalModules\<close> has installed the manager.
  \<^item> \<open>sink\<close>: trace of the calls into the result sink (observation only, nothing reads it).
  \<^item> \<open>imageSources\<close>: the \<open>data\<close> payloads assigned to \<open>img.src\<close>, oldest first.
  \<^item> \<open>fetchListeners\<close>: how many \<open>handleMessage\<close> closures \<open>ActionSelector.fetchActions\<close>
    has pushed on the \<open>onMessage\<close> list.
  \<^item> \<open>fetchPromise\<close>: the promise of \<open>ActionSelector.fetchActions\<close>;
    \<open>connectPromise\<close>: the promise of \<open>WebSocketClient.connect\<close> awaited by \<open>init\<close>.
  \<^item> \<open>restRequests\<close>: number of \<open>fetch\<close> calls made by \<open>fetchActionsRest\<close>.
\<close>

record app =
  wsClient :: ws_client
  actionSelector :: selector
  isEvaluating :: bool
  customActionsManager :: bool
  alerts :: "alert list"
  console :: "console_entry list"
  sink :: "delivery list"
  imageSources :: "jsval list"
  fetchListeners :: nat
  fetchPromise :: promise
  connectPromise :: promise
  restRequests :: nat

text \<open>
  A method is a function from the state to a completion and the state it leaves behind;
  a thrown exception keeps the mutations made before the throw.
\<close>

type_synonym 'a proc = "app \<Rightarrow> 'a completion \<times> app"

definition skip_do :: "unit proc" where
  "skip_do s = (Normal (), s)"

definition return_do :: "'a \<Rightarrow> 'a proc" where
  "return_do v s = (Normal v, s)"

definition throw_do :: "exn \<Rightarrow> 'a proc" where
  "throw_do e s = (Throw e, s)"

definition step_do :: "(app \<Rightarrow> app) \<Rightarrow> unit proc" where
  "step_do f s = (Normal (), f s)"

definition bind_do :: "'a proc \<Rightarrow> ('a \<Rightarrow> 'b proc) \<Rightarrow> 'b proc" where
  "bind_do p k s = (case p s of (Normal v, s') \<Rightarrow> k v s' | (Throw e, s') \<Rightarrow> (Throw e, s'))"

definition then_do :: "unit proc \<Rightarrow> 'a proc \<Rightarrow> 'a proc" where
  "then_do p q = bind_do p (\<lambda>_. q)"

definition eval_do :: "'a completion \<Rightarrow> ('a \<Rightarrow> 'b proc) \<Rightarrow> 'b proc" where
  "eval_do c k s = (case c of Normal v \<Rightarrow> k v s | Throw e \<Rightarrow> (Throw e, s))"

definition try_catch :: "'a proc \<Rightarrow> (exn \<Rightarrow> 'a proc) \<Rightarrow> 'a proc" where
  "try_catch body handler s =
     (case body s of (Normal v, s') \<Rightarrow> (Normal v, s') | (Throw e, s') \<Rightarrow> handler e s')"

definition in_ws :: "(ws_client \<Rightarrow> ws_client) \<Rightarrow> app \<Rightarrow> app" where
  "in_ws f s = s\<lparr>wsClient := f (wsClient s)\<rparr>"

definition in_selector :: "(selector \<Rightarrow> selector) \<Rightarrow> app \<Rightarrow> app" where
  "in_selector f s = s\<lparr>actionSelector := f (actionSelector s)\<rparr>"

definition console_do :: "console_entry \<Rightarrow> unit proc" where
  "console_do e = step_do (\<lambda>s. s\<lparr>console := console s @ [e]\<rparr>)"

definition alert_do :: "alert \<Rightarrow> unit proc" where
  "alert_do a = step_do (\<lambda>s. s\<lparr>alerts := alerts s @ [a]\<rparr>)"

section \<open>WebSocketClient\<close>

text \<open>The constructor (part_001:7-17).\<close>

definition WebSocketClient :: ws_client where
  "WebSocketClient = \<lparr>socket = None, connected = False, transmitted = []\<rparr>"

text \<open>\<open>isConnected\<close> (part_001:215-217): \<open>this.socket && this.socket.readyState === WebSocket.OPEN\<close>.\<close>

definition isConnected :: "app \<Rightarrow> bool" where
  "isConnected s = (socket (wsClient s) = Some OPEN)"

text \<open>
  \<open>send\<close> (part_001:69-77). With \<open>connected\<close> set, \<open>this.socket.readyState\<close> is read, a
  TypeError when \<open>socket\<close> is \<open>null\<close>.
\<close>

definition send :: "message \<Rightarrow> bool proc" where
  "send m s =
     (if connected (wsClient s) then
        (case socket (wsClient s) of
           None \<Rightarrow> (Throw TypeError, s)
         | Some rs \<Rightarrow>
             if rs = OPEN
             then (Normal True, in_ws (\<lambda>w. w\<lparr>transmitted := transmitted w @ [m]\<rparr>) s)
             else (Normal False, s\<lparr>console := console s @ [Send_refused]\<rparr>))
      else (Normal False, s\<lparr>console := console s @ [Send_refused]\<rparr>))"

definition sendVideoFrame :: "jsval \<Rightarrow> jsval \<Rightarrow> bool proc" where
  "sendVideoFrame frameData selectedActionId = send (Video frameData selectedActionId)"

definition sendFrame :: "jsval \<Rightarrow> bool proc" where
  "sendFrame frameData = send (Video frameData None)"

definition ws_startEvaluation :: "jsval \<Rightarrow> bool proc" where
  "ws_startEvaluation actionId = send (Start_evaluation actionId)"

definition ws_stopEvaluation :: "bool proc" where
  "ws_stopEvaluation = send Stop_evaluation"

definition sendActionSelect :: "jsval \<Rightarrow> bool proc" where
  "sendActionSelect actionId = send (Action_select actionId)"

definition sendActionStop :: "bool proc" where
  "sendActionStop = send Action_stop"

definition requestActions :: "bool proc" where
  "requestActions = send Get_actions"

definition sendSettings :: "jsval \<Rightarrow> bool proc" where
  "sendSettings settings = send (Settings_change settings)"

text \<open>
  \<open>_notifyCallbacks\<close> (part_001:191-201 and, with the same text, part_001:406-416):
  \<open>forEach\<close> over the list registered under the event name, each call in its own
  \<open>try\<close>/\<open>catch\<close> that logs. The lists hold closures over the application, so they are
  an argument here, not a field of the state.
\<close>

fun forEach :: "('a \<Rightarrow> unit proc) \<Rightarrow> 'a list \<Rightarrow> unit proc" where
  "forEach f [] s = (Normal (), s)"
| "forEach f (x # xs) s =
     (case f x s of (Normal v, s') \<Rightarrow> forEach f xs s' | (Throw e, s') \<Rightarrow> (Throw e, s'))"

text \<open>
  The names under which the code dispatches: \<open>onOpen\<close>, \<open>onClose\<close>, \<open>onMessage\<close> and
  \<open>onError\<close> in \<open>connect\<close> (part_001:30-46), \<open>onActionChange\<close> in the selector
  (part_001:334-339, 440-445). The table below gives the own properties of
  \<open>this.callbacks\<close>; none of these names is inherited from \<open>Object.prototype\<close>, for which
  the lookup would not yield a list.
\<close>

definition dispatched_events :: "string list" where
  "dispatched_events = [''onOpen'', ''onClose'', ''onMessage'', ''onError'', ''onActionChange'']"

definition notifyCallbacks ::
  "(string \<rightharpoonup> ('d \<Rightarrow> unit proc) list) \<Rightarrow> string \<Rightarrow> 'd \<Rightarrow> unit proc" where
  "notifyCallbacks callbacks eventName d =
     (case callbacks eventName of
        None \<Rightarrow> skip_do
      | Some cbs \<Rightarrow>
          forEach (\<lambda>callback.
            try_catch (callback d) (\<lambda>error. console_do (Callback_failed eventName error))) cbs)"

section \<open>ActionSelector\<close>

text \<open>UTF-8 bytes of the placeholder shown when nothing is selected, and of the degree sign.\<close>

definition not_selected :: string where
  "not_selected = [CHR 0xE6, CHR 0x9C, CHR 0xAA, CHR 0xE9, CHR 0x80, CHR 0x89, CHR 0xE6, CHR 0x8B, CHR 0xA9]"

definition degree_sign :: string where
  "degree_sign = [CHR 0xC2, CHR 0xB0]"

text \<open>\<open>resetStats\<close> (part_001:375-380).\<close>

definition resetStats :: "unit proc" where
  "resetStats =
     step_do (in_selector (\<lambda>a. a\<lparr>countElement := Lit ''0'', stageElement := Lit ''-'',
       stageColor := ''#2196F3'', angleElement := Lit (''0.0'' @ degree_sign)\<rparr>))"

definition stage_colour :: "string \<Rightarrow> string" where
  "stage_colour st =
     (if st = ''up'' then ''#4CAF50'' else if st = ''down'' then ''#2196F3'' else ''#FFC107'')"

text \<open>
  \<open>updateStats\<close> (part_001:350-370) on the object \<open>{count, stage, angle}\<close>.
  \<open>stats.stage.toUpperCase()\<close> is a TypeError unless \<open>stage\<close> is a string, and
  \<open>stats.angle.toFixed(1)\<close> unless \<open>angle\<close> is a number; the fields written before the
  throw stay written.
\<close>

definition updateStats :: "jsval \<Rightarrow> jsval \<Rightarrow> jsval \<Rightarrow> unit proc" where
  "updateStats count stage angle =
     then_do (step_do (\<lambda>s. s\<lparr>sink := sink s @ [Stats count stage angle]\<rparr>))
    (then_do (if count \<noteq> None
              then step_do (in_selector (\<lambda>a. a\<lparr>countElement := ToString count\<rparr>))
              else skip_do)
    (then_do (if stage \<noteq> None
              then (case stage of
                      Some (JStr st) \<Rightarrow>
                        step_do (in_selector (\<lambda>a. a\<lparr>stageElement := UpperCase st,
                          stageColor := stage_colour st\<rparr>))
                    | _ \<Rightarrow> throw_do TypeError)
              else skip_do)
             (if angle \<noteq> None
              then (case angle of
                      Some (JNum a) \<Rightarrow> step_do (in_selector (\<lambda>sel. sel\<lparr>angleElement := Fixed1 a\<rparr>))
                    | _ \<Rightarrow> throw_do TypeError)
              else skip_do)))"

text \<open>
  \<open>this.actions.find((action) => action.id === i)\<close>: a TypeError when \<open>this.actions\<close> is
  not an array, or when a \<open>null\<close> element is reached before a match.
\<close>

fun find_action :: "json list \<Rightarrow> jsval \<Rightarrow> jsval completion" where
  "find_action [] i = Normal None"
| "find_action (a # as) i =
     (case get_prop (Some a) ''id'' of
        Throw e \<Rightarrow> Throw e
      | Normal v \<Rightarrow> if strict_eq v i then Normal (Some a) else find_action as i)"

definition actions_find :: "jsval \<Rightarrow> jsval \<Rightarrow> jsval completion" where
  "actions_find acts i =
     (case acts of Some (JArr xs) \<Rightarrow> find_action xs i | _ \<Rightarrow> Throw TypeError)"

text \<open>
  \<open>_populateActionSelect\<close> (part_001:301-323). The option list of the \<open>select\<close> element
  and its change listeners are not part of the state; what remains is where the method
  throws: \<open>this.actions.forEach\<close> needs an array, and \<open>action.id\<close>, \<open>action.name\<close> need
  elements other than \<open>null\<close>.
\<close>

fun populate_options :: "json list \<Rightarrow> unit completion" where
  "populate_options [] = Normal ()"
| "populate_options (a # as) =
     (case get_prop (Some a) ''id'' of
        Throw e \<Rightarrow> Throw e
      | Normal i \<Rightarrow>
          (case get_prop (Some a) ''name'' of
             Throw e \<Rightarrow> Throw e
           | Normal n \<Rightarrow> populate_options as))"

definition populateActionSelect :: "unit proc" where
  "populateActionSelect s =
     (case actions (actionSelector s) of
        Some (JArr xs) \<Rightarrow> (populate_options xs, s)
      | _ \<Rightarrow> (Throw TypeError, s))"

text \<open>
  The listener that \<open>initActionSelector\<close> registers for \<open>onActionChange\<close>
  (main.js:133-140): with the socket open and an action given, announce it.
\<close>

definition onActionChange_listener :: "jsval \<Rightarrow> unit proc" where
  "onActionChange_listener action s =
     (if isConnected s \<and> truthy action
      then eval_do (get_prop action ''id'') (\<lambda>i. bind_do (sendActionSelect i) (\<lambda>r. skip_do)) s
      else (Normal (), s))"

definition selector_callbacks :: "string \<rightharpoonup> (jsval \<Rightarrow> unit proc) list" where
  "selector_callbacks = [''onActionChange'' \<mapsto> [onActionChange_listener]]"

definition ActionSelector_notify :: "string \<Rightarrow> jsval \<Rightarrow> unit proc" where
  "ActionSelector_notify = notifyCallbacks selector_callbacks"

text \<open>\<open>_handleActionChange\<close> (part_001:329-344), the handler of the \<open>select\<close> element.\<close>

definition handleActionChange :: "string \<Rightarrow> unit proc" where
  "handleActionChange actionId =
     then_do
       (if actionId \<noteq> [] then
          bind_do (\<lambda>s. (actions_find (actions (actionSelector s)) (Some (JStr actionId)), s))
            (\<lambda>found.
               then_do (step_do (in_selector (\<lambda>a. a\<lparr>selectedAction := found\<rparr>)))
                 (if truthy found then
                    eval_do (get_prop found ''name'') (\<lambda>name.
                      then_do (step_do (in_selector (\<lambda>a. a\<lparr>currentActionElement := ToString name\<rparr>)))
                              (ActionSelector_notify ''onActionChange'' found))
                  else skip_do))
        else
          then_do (step_do (in_selector (\<lambda>a. a\<lparr>selectedAction := Some JNull,
                     currentActionElement := Lit not_selected\<rparr>)))
                  (ActionSelector_notify ''onActionChange'' (Some JNull)))
       resetStats"

text \<open>\<open>updateActions\<close> (part_001:422-450).\<close>

definition updateActions :: "jsval \<Rightarrow> unit proc" where
  "updateActions acts =
     then_do (step_do (in_selector (\<lambda>a. a\<lparr>actions := acts\<rparr>)))
       (bind_do (\<lambda>s. (let sel = selectedAction (actionSelector s)
                       in if truthy sel then get_prop sel ''id'' else Normal (Some JNull), s))
          (\<lambda>currentActionId.
             then_do populateActionSelect
               (if truthy currentActionId then
                  bind_do (\<lambda>s. (actions_find (actions (actionSelector s)) currentActionId, s))
                    (\<lambda>updatedAction.
                       if truthy updatedAction then
                         then_do (step_do (in_selector (\<lambda>a. a\<lparr>selectedAction := updatedAction\<rparr>)))
                           (eval_do (get_prop updatedAction ''name'') (\<lambda>name.
                              then_do (step_do (in_selector (\<lambda>a. a\<lparr>currentActionElement := ToString name\<rparr>)))
                                      (ActionSelector_notify ''onActionChange'' updatedAction)))
                       else
                         then_do (step_do (in_selector (\<lambda>a. a\<lparr>selectedAction := Some JNull,
                                    currentActionElement := Lit not_selected\<rparr>)))
                                 (ActionSelector_notify ''onActionChange'' (Some JNull)))
                else skip_do)))"

section \<open>RehabEvaluationApp\<close>

text \<open>
  \<open>startEvaluation\<close> (main.js:383-423). The button and prompt elements exist whenever
  the method runs (it is reached through the listener bound on \<open>startBtn\<close>), so the DOM
  lines of the \<open>try\<close> block neither throw nor touch the state.
\<close>

definition startEvaluation :: "unit proc" where
  "startEvaluation s =
     (let selected = selectedAction (actionSelector s) in
      if \<not> truthy selected then alert_do Select_action_first s
      else if \<not> isConnected s then alert_do Connection_not_open s
      else
        try_catch
          (then_do (step_do (\<lambda>s. s\<lparr>isEvaluating := True\<rparr>))
             (eval_do (get_prop selected ''id'') (\<lambda>i.
                bind_do (ws_startEvaluation i) (\<lambda>result. skip_do))))
          (\<lambda>error.
             then_do (console_do (Start_error error))
               (then_do (step_do (\<lambda>s. s\<lparr>isEvaluating := False\<rparr>)) (alert_do Start_failed))) s)"

text \<open>
  \<open>stopEvaluation\<close> (main.js:428-456). \<open>PoseVisualizer.reset\<close> (part_002:673-681) clears
  the visualizer's own fields and its canvas and cannot throw once the constructor has
  succeeded; it has no field here.
\<close>

definition stopEvaluation :: "unit proc" where
  "stopEvaluation =
     try_catch
       (then_do (step_do (\<lambda>s. s\<lparr>isEvaluating := False\<rparr>))
          (bind_do ws_stopEvaluation (\<lambda>r. resetStats)))
       (\<lambda>error. then_do (console_do (Stop_error error)) (alert_do Stop_failed))"

text \<open>
  \<open>handleProcessedFrame\<close> (main.js:327-351). The canvas exists (the visualizer was built
  on it), so the inner \<open>try\<close> block does not throw; the image is decoded and drawn later,
  by the browser.
\<close>

definition handleProcessedFrame :: "json \<Rightarrow> unit proc" where
  "handleProcessedFrame result =
     then_do (step_do (\<lambda>s. s\<lparr>sink := sink s @ [Frame result]\<rparr>))
       (eval_do (get_prop (Some result) ''data'') (\<lambda>d.
          if truthy d then step_do (\<lambda>s. s\<lparr>imageSources := imageSources s @ [d]\<rparr>) else skip_do))"

text \<open>
  An event passed to the socket listeners. \<open>JSON.parse\<close> is the argument \<open>parse\<close>
  (\<open>None\<close> for a SyntaxError); the \<open>data\<close> of an event that is not a message is
  \<open>undefined\<close>, which does not parse.
\<close>

datatype event = Event | MessageEvent string

definition parse_event :: "(string \<Rightarrow> json option) \<Rightarrow> event \<Rightarrow> json completion" where
  "parse_event parse ev =
     (case ev of
        MessageEvent raw \<Rightarrow> (case parse raw of None \<Rightarrow> Throw SyntaxError | Some v \<Rightarrow> Normal v)
      | Event \<Rightarrow> Throw SyntaxError)"

text \<open>
  The \<open>switch\<close> of \<open>handleWebSocketMessage\<close> (main.js:271-316). \<open>CustomActionsManager\<close>
  (part_000, part_002) defines no \<open>setActions\<close>, so the call at main.js:302 is a
  TypeError whenever the manager is installed.
\<close>

definition message_switch :: "json \<Rightarrow> jsval \<Rightarrow> unit proc" where
  "message_switch message ty =
     (if ty = Some (JStr ''processed_frame'') then
        (\<lambda>s. if isEvaluating s then handleProcessedFrame message s else (Normal (), s))
      else if ty = Some (JStr ''result'') then
        (\<lambda>s. if isEvaluating s then
            eval_do (get_prop (Some message) ''count'') (\<lambda>c.
            eval_do (get_prop (Some message) ''stage'') (\<lambda>st.
            eval_do (get_prop (Some message) ''angle'') (\<lambda>an. updateStats c st an))) s
          else (Normal (), s))
      else if ty = Some (JStr ''warning'') then
        eval_do (get_prop (Some message) ''message'') (\<lambda>m. console_do (Backend_warning m))
      else if ty = Some (JStr ''error'') then
        eval_do (get_prop (Some message) ''message'') (\<lambda>m. console_do (Backend_error m))
      else if ty = Some (JStr ''actions_list'') then
        eval_do (get_prop (Some message) ''actions'') (\<lambda>acts.
          then_do (updateActions acts)
            (\<lambda>s. if customActionsManager s then (Throw TypeError, s) else (Normal (), s)))
      else if ty = Some (JStr ''action_selected'') then skip_do
      else if ty = Some (JStr ''action_stopped'') then skip_do
      else if ty = Some (JStr ''evaluation_started'') then skip_do
      else console_do (Unknown_type ty))"

text \<open>\<open>handleWebSocketMessage\<close> (main.js:265-321).\<close>

definition handleWebSocketMessage :: "(string \<Rightarrow> json option) \<Rightarrow> event \<Rightarrow> unit proc" where
  "handleWebSocketMessage parse ev =
     try_catch
       (eval_do (parse_event parse ev) (\<lambda>message.
          eval_do (get_prop (Some message) ''type'') (\<lambda>ty. message_switch message ty)))
       (\<lambda>error. console_do (Message_failed error))"

text \<open>
  The closure \<open>handleMessage\<close> of \<open>ActionSelector.fetchActions\<close> (part_001:248-260).
  \<open>wsClient.removeEventListener("message", handleMessage)\<close> finds no list under the name
  \<open>message\<close> and removes nothing, so the closure stays on the \<open>onMessage\<close> list.
  \<open>resolve\<close> settles the promise only while it is pending.
\<close>

definition resolve_fetch :: "app \<Rightarrow> app" where
  "resolve_fetch s = (if fetchPromise s = Pending then s\<lparr>fetchPromise := Fulfilled\<rparr> else s)"

definition fetch_handleMessage :: "(string \<Rightarrow> json option) \<Rightarrow> event \<Rightarrow> unit proc" where
  "fetch_handleMessage parse ev =
     try_catch
       (eval_do (parse_event parse ev) (\<lambda>message.
          eval_do (get_prop (Some message) ''type'') (\<lambda>ty.
            if ty = Some (JStr ''actions_list'') then
              eval_do (get_prop (Some message) ''actions'') (\<lambda>acts.
                then_do (step_do (in_selector (\<lambda>a. a\<lparr>actions := acts\<rparr>)))
                  (then_do populateActionSelect (step_do resolve_fetch)))
            else skip_do)))
       (\<lambda>error. console_do (Fetch_message_failed error))"

text \<open>
  The catalogue fetch. \<open>fetchActions_rejected\<close> is the \<open>catch\<close> of
  \<open>RehabEvaluationApp.fetchActions\<close> up to the REST request (main.js:249-253);
  \<open>fetchActions_begin\<close> is what the call does before its first \<open>await\<close>, the executor
  of part_001:246-273 (an exception in the executor rejects the promise);
  \<open>fetch_timeout\<close> is the timer callback of part_001:269-272, five seconds later.
\<close>

definition fetchActions_rejected :: "unit proc" where
  "fetchActions_rejected =
     then_do (step_do (\<lambda>s. s\<lparr>fetchPromise := Rejected\<rparr>))
       (then_do (console_do Fetch_failed)
          (step_do (\<lambda>s. s\<lparr>restRequests := Suc (restRequests s)\<rparr>)))"

definition fetchActions_begin :: "unit proc" where
  "fetchActions_begin =
     then_do (step_do (\<lambda>s. s\<lparr>fetchListeners := Suc (fetchListeners s), fetchPromise := Pending\<rparr>))
       (try_catch (bind_do requestActions (\<lambda>r. skip_do)) (\<lambda>error. fetchActions_rejected))"

definition fetch_timeout :: "unit proc" where
  "fetch_timeout s = (if fetchPromise s = Pending then fetchActions_rejected s else (Normal (), s))"

text \<open>
  \<open>fetchActionsRest\<close> (part_001:280-296) from the point where the request settles:
  the response was OK and its body parsed to \<open>data\<close>, or it was not OK, or \<open>fetch\<close> or
  \<open>response.json()\<close> rejected. The completion is that of the returned promise.
\<close>

datatype rest_outcome = Rest_ok json | Rest_not_ok | Rest_rejected

definition fetchActionsRest :: "rest_outcome \<Rightarrow> jsval proc" where
  "fetchActionsRest outcome =
     try_catch
       (case outcome of
          Rest_rejected \<Rightarrow> throw_do TypeError
        | Rest_not_ok \<Rightarrow> then_do (console_do Rest_failed) (return_do (Some (JArr [])))
        | Rest_ok data \<Rightarrow>
            eval_do (get_prop (Some data) ''actions'') (\<lambda>acts.
              then_do (step_do (in_selector (\<lambda>a. a\<lparr>actions := acts\<rparr>)))
                (then_do populateActionSelect (\<lambda>s. (Normal (actions (actionSelector s)), s)))))
       (\<lambda>error. then_do (console_do Rest_failed) (return_do (Some (JArr []))))"

text \<open>The rest of the \<open>catch\<close> of \<open>RehabEvaluationApp.fetchActions\<close> (main.js:252-257).\<close>

definition fetchActions_fallback :: "rest_outcome \<Rightarrow> unit proc" where
  "fetchActions_fallback outcome =
     try_catch
       (bind_do (fetchActionsRest outcome) (\<lambda>r. skip_do))
       (\<lambda>restError. then_do (console_do Rest_fallback_failed) (alert_do Cannot_fetch_actions))"

text \<open>
  The listener lists of the \<open>WebSocketClient\<close> after \<open>initWebSocket\<close> (main.js:168-192),
  with \<open>n\<close> closures added by \<open>fetchActions\<close>.
\<close>

definition ws_callbacks ::
  "(string \<Rightarrow> json option) \<Rightarrow> nat \<Rightarrow> string \<rightharpoonup> (event \<Rightarrow> unit proc) list" where
  "ws_callbacks parse n =
     [''onOpen'' \<mapsto> [\<lambda>ev. fetchActions_begin],
      ''onClose'' \<mapsto> [\<lambda>ev. skip_do],
      ''onMessage'' \<mapsto> handleWebSocketMessage parse # replicate n (fetch_handleMessage parse),
      ''onError'' \<mapsto> [\<lambda>ev. console_do Socket_failed]]"

definition WebSocketClient_notify :: "(string \<Rightarrow> json option) \<Rightarrow> string \<Rightarrow> event \<Rightarrow> unit proc" where
  "WebSocketClient_notify parse eventName ev s =
     notifyCallbacks (ws_callbacks parse (fetchListeners s)) eventName ev s"

text \<open>
  \<open>connect\<close> (part_001:22-54), called once by \<open>init\<close> (main.js:55), and the four socket
  handlers it installs. The browser moves the ready state before it fires the event: to
  \<open>OPEN\<close> before \<open>open\<close>, and to \<open>CLOSED\<close> before \<open>close\<close> and before the \<open>error\<close> of a failed
  connection, which a \<open>close\<close> event follows. The \<open>onerror\<close> handler does not touch
  \<open>connected\<close>; the flag is cleared when that \<open>close\<close> arrives.
  A rejected \<open>connect\<close> lands in the \<open>catch\<close> of \<open>init\<close> (main.js:60-67), which raises
  an alert. \<open>initOptionalModules\<close>, which \<open>init\<close> runs once the promise has settled either
  way, is represented by the \<open>customActionsManager\<close> flag alone.
\<close>

definition connect :: "unit proc" where
  "connect =
     then_do (step_do (in_ws (\<lambda>w. w\<lparr>socket := Some CONNECTING\<rparr>)))
             (step_do (\<lambda>s. s\<lparr>connectPromise := Pending\<rparr>))"

definition socket_onopen :: "(string \<Rightarrow> json option) \<Rightarrow> unit proc" where
  "socket_onopen parse =
     then_do (step_do (in_ws (\<lambda>w. w\<lparr>socket := Some OPEN\<rparr>)))
       (then_do (step_do (in_ws (\<lambda>w. w\<lparr>connected := True\<rparr>)))
          (then_do (WebSocketClient_notify parse ''onOpen'' Event)
             (step_do (\<lambda>s. if connectPromise s = Pending then s\<lparr>connectPromise := Fulfilled\<rparr> else s))))"

definition socket_onclose :: "(string \<Rightarrow> json option) \<Rightarrow> unit proc" where
  "socket_onclose parse =
     then_do (step_do (in_ws (\<lambda>w. w\<lparr>socket := Some CLOSED\<rparr>)))
       (then_do (step_do (in_ws (\<lambda>w. w\<lparr>connected := False\<rparr>)))
          (WebSocketClient_notify parse ''onClose'' Event))"

definition socket_onmessage :: "(string \<Rightarrow> json option) \<Rightarrow> string \<Rightarrow> unit proc" where
  "socket_onmessage parse raw = WebSocketClient_notify parse ''onMessage'' (MessageEvent raw)"

definition socket_onerror :: "(string \<Rightarrow> json option) \<Rightarrow> unit proc" where
  "socket_onerror parse =
     then_do (step_do (in_ws (\<lambda>w. w\<lparr>socket := Some CLOSED\<rparr>)))
       (then_do (console_do Socket_failed)
          (then_do (WebSocketClient_notify parse ''onError'' Event)
             (\<lambda>s. if connectPromise s = Pending
                   then alert_do Init_failed (s\<lparr>connectPromise := Rejected\<rparr>)
                   else (Normal (), s))))"

text \<open>\<open>disconnect\<close> (part_001:59-63): \<open>socket.close()\<close> on a socket not yet closed.\<close>

definition disconnect :: "unit proc" where
  "disconnect =
     step_do (in_ws (\<lambda>w.
       if socket w = Some CONNECTING \<or> socket w = Some OPEN then w\<lparr>socket := Some CLOSING\<rparr> else w))"

text \<open>\<open>sendSettingsToBackend\<close> (main.js:111-118), the listener of the settings panel.\<close>

definition sendSettingsToBackend :: "jsval \<Rightarrow> unit proc" where
  "sendSettingsToBackend settings s =
     (if isConnected s then bind_do (sendSettings settings) (\<lambda>r. skip_do) s
      else console_do Send_refused s)"

section \<open>Runs\<close>

text \<open>
  The user's three intents. An exception that leaves \<open>_handleActionChange\<close> ends that
  listener only; the state stays as the throw left it.
\<close>

datatype intent = SelectExercise string | Start | Stop

fun intent_step :: "intent \<Rightarrow> app \<Rightarrow> app" where
  "intent_step (SelectExercise actionId) s = snd (handleActionChange actionId s)"
| "intent_step Start s = snd (startEvaluation s)"
| "intent_step Stop s = snd (stopEvaluation s)"

fun run_intents :: "intent list \<Rightarrow> app \<Rightarrow> app" where
  "run_intents [] s = s"
| "run_intents (i # is) s = run_intents is (intent_step i s)"

text \<open>Inbound messages, handled one after the other in arrival order.\<close>

fun run_messages :: "(string \<Rightarrow> json option) \<Rightarrow> string list \<Rightarrow> app \<Rightarrow> app" where
  "run_messages parse [] s = s"
| "run_messages parse (raw # raws) s = run_messages parse raws (snd (socket_onmessage parse raw s))"

text \<open>
  Everything that can happen to the application: the one \<open>connect\<close> call of \<open>init\<close>, the
  events the browser fires on the socket (each only in the ready states in which a browser
  fires it; \<open>close\<close> also on a socket that an \<open>error\<close> has just closed), \<open>disconnect\<close>, the user's intents, the catalogue timer and the settled REST
  request, a catalogue pushed by the custom-action manager (main.js:214-218), and a
  change of the settings.
\<close>

datatype input =
    Connect
  | Socket_open
  | Socket_close
  | Socket_error
  | Socket_message string
  | Disconnect
  | Intent intent
  | Fetch_timeout
  | Rest_settled rest_outcome
  | Catalogue_edited jsval
  | Settings_changed jsval

definition socket_live :: "app \<Rightarrow> bool" where
  "socket_live s =
     (socket (wsClient s) = Some CONNECTING \<or> socket (wsClient s) = Some OPEN
      \<or> socket (wsClient s) = Some CLOSING)"

fun app_step :: "(string \<Rightarrow> json option) \<Rightarrow> input \<Rightarrow> app \<Rightarrow> app" where
  "app_step parse Connect s = (if socket (wsClient s) = None then snd (connect s) else s)"
| "app_step parse Socket_open s =
     (if socket (wsClient s) = Some CONNECTING then snd (socket_onopen parse s) else s)"
| "app_step parse Socket_close s =
     (if socket (wsClient s) \<noteq> None then snd (socket_onclose parse s) else s)"
| "app_step parse Socket_error s = (if socket_live s then snd (socket_onerror parse s) else s)"
| "app_step parse (Socket_message raw) s =
     (if socket (wsClient s) = Some OPEN \<or> socket (wsClient s) = Some CLOSING
      then snd (socket_onmessage parse raw s) else s)"
| "app_step parse Disconnect s = snd (disconnect s)"
| "app_step parse (Intent i) s = intent_step i s"
| "app_step parse Fetch_timeout s = snd (fetch_timeout s)"
| "app_step parse (Rest_settled outcome) s = snd (fetchActions_fallback outcome s)"
| "app_step parse (Catalogue_edited acts) s = snd (updateActions acts s)"
| "app_step parse (Settings_changed settings) s = snd (sendSettingsToBackend settings s)"

fun app_run :: "(string \<Rightarrow> json option) \<Rightarrow> input list \<Rightarrow> app \<Rightarrow> app" where
  "app_run parse [] s = s"
| "app_run parse (i # is) s = app_run parse is (app_step parse i s)"

section \<open>Properties of states and methods\<close>

text \<open>
  The \<open>connected\<close> flag against the ready state: the flag is set in \<open>onopen\<close> and cleared
  in \<open>onclose\<close>, so it is set on an open socket, may still be set on a closing socket and
  on one that an error has closed (until its \<open>close\<close> event), and is clear while there is
  no socket or the socket is connecting.
\<close>

definition transport_consistent :: "app \<Rightarrow> bool" where
  "transport_consistent s =
     ((connected (wsClient s) \<longrightarrow>
         socket (wsClient s) = Some OPEN \<or> socket (wsClient s) = Some CLOSING
         \<or> socket (wsClient s) = Some CLOSED)
      \<and> (socket (wsClient s) = Some OPEN \<longrightarrow> connected (wsClient s)))"

text \<open>The session invariant of the specification.\<close>

definition session_inv :: "app \<Rightarrow> bool" where
  "session_inv s = (isEvaluating s \<longrightarrow> truthy (selectedAction (actionSelector s)) \<and> isConnected s)"

text \<open>Whether \<open>selectExercise(actionId)\<close> finds an exercise in the catalogue \<open>acts\<close>.\<close>

definition resolves :: "jsval \<Rightarrow> string \<Rightarrow> bool" where
  "resolves acts actionId =
     (actionId \<noteq> [] \<and>
      (case actions_find acts (Some (JStr actionId)) of
         Normal found \<Rightarrow> truthy found
       | Throw e \<Rightarrow> False))"

text \<open>
  Whether \<open>selectExercise(actionId)\<close> leaves no exercise selected: the empty option, or an
  id for which \<open>find\<close> returns \<open>undefined\<close>. (When \<open>find\<close> throws, the handler ends before
  the assignment and the selection stays.) \<open>selections_guarded\<close> says of a sequence of
  intents run from a state that none of its selections does so while an evaluation is
  running.
\<close>

definition deselects :: "jsval \<Rightarrow> string \<Rightarrow> bool" where
  "deselects acts actionId =
     (actionId = [] \<or>
      (case actions_find acts (Some (JStr actionId)) of
         Normal found \<Rightarrow> \<not> truthy found
       | Throw e \<Rightarrow> False))"

fun selections_guarded :: "intent list \<Rightarrow> app \<Rightarrow> bool" where
  "selections_guarded [] s = True"
| "selections_guarded (SelectExercise actionId # is) s =
     (\<not> (isEvaluating s \<and> deselects (actions (actionSelector s)) actionId)
      \<and> selections_guarded is (intent_step (SelectExercise actionId) s))"
| "selections_guarded (Start # is) s = selections_guarded is (intent_step Start s)"
| "selections_guarded (Stop # is) s = selections_guarded is (intent_step Stop s)"


text \<open>
  The messages meant for the result sink, and what the sink is to receive for each:
  the three statistics of a \<open>result\<close>, the whole message of a \<open>processed_frame\<close>.
  \<open>deliveries\<close> lists that for a run of wire texts of any kind: once for each text that
  parses to such a message, in arrival order. \<open>frame_sources\<close> lists the image payloads the
  renderer is to load for the run: the \<open>data\<close> of each frame that has one.
  \<open>stats_display\<close> is what the statistics display shows: count, stage, stage colour, angle.
\<close>

definition member :: "json \<Rightarrow> string \<Rightarrow> jsval" where
  "member message k = (case get_prop (Some message) k of Normal v \<Rightarrow> v | Throw e \<Rightarrow> None)"

definition sink_message :: "json \<Rightarrow> bool" where
  "sink_message message =
     (get_prop (Some message) ''type'' = Normal (Some (JStr ''result''))
      \<or> get_prop (Some message) ''type'' = Normal (Some (JStr ''processed_frame'')))"

definition delivery_of :: "json \<Rightarrow> delivery" where
  "delivery_of message =
     (if member message ''type'' = Some (JStr ''result'')
      then Stats (member message ''count'') (member message ''stage'') (member message ''angle'')
      else Frame message)"

fun deliveries :: "(string \<Rightarrow> json option) \<Rightarrow> string list \<Rightarrow> delivery list" where
  "deliveries parse [] = []"
| "deliveries parse (raw # raws) =
     (case parse raw of
        Some message \<Rightarrow> if sink_message message then [delivery_of message] else []
      | None \<Rightarrow> []) @ deliveries parse raws"

fun frame_sources :: "(string \<Rightarrow> json option) \<Rightarrow> string list \<Rightarrow> jsval list" where
  "frame_sources parse [] = []"
| "frame_sources parse (raw # raws) =
     (case parse raw of
        Some message \<Rightarrow>
          if member message ''type'' = Some (JStr ''processed_frame'') \<and> truthy (member message ''data'')
          then [member message ''data''] else []
      | None \<Rightarrow> []) @ frame_sources parse raws"

definition stats_display :: "app \<Rightarrow> dom_text \<times> dom_text \<times> string \<times> dom_text" where
  "stats_display s =
     (countElement (actionSelector s), stageElement (actionSelector s),
      stageColor (actionSelector s), angleElement (actionSelector s))"

fun sink_texts :: "(string \<Rightarrow> json option) \<Rightarrow> string list \<Rightarrow> bool" where
  "sink_texts parse [] = True"
| "sink_texts parse (raw # raws) =
     ((case parse raw of Some message \<Rightarrow> sink_message message | None \<Rightarrow> False)
      \<and> sink_texts parse raws)"

text \<open>What the sink has been given and what it shows: the calls, the image payloads, the statistics.\<close>

definition sink_view :: "app \<Rightarrow> delivery list \<times> jsval list \<times> (dom_text \<times> dom_text \<times> string \<times> dom_text)" where
  "sink_view s = (sink s, imageSources s, stats_display s)"

text \<open>The \<open>type\<close> values that the \<open>switch\<close> of \<open>handleWebSocketMessage\<close> has a case for.\<close>

definition known_type :: "jsval \<Rightarrow> bool" where
  "known_type ty =
     (ty \<in> Some ` JStr ` {''processed_frame'', ''result'', ''warning'', ''error'', ''actions_list'',
                            ''action_selected'', ''action_stopped'', ''evaluation_started''})"

text \<open>
  \<open>preserves g p\<close>: the method \<open>p\<close> leaves the observation \<open>g\<close> of the state as it was,
  whether it returns or throws. \<open>session_core\<close> is the part of the state that no inbound
  message and no catalogue operation may touch.
\<close>

definition preserves :: "(app \<Rightarrow> 'x) \<Rightarrow> 'a proc \<Rightarrow> bool" where
  "preserves g p = (\<forall>s. g (snd (p s)) = g s)"

definition io_blind :: "(app \<Rightarrow> 'x) \<Rightarrow> bool" where
  "io_blind g = (\<forall>s t c. g (s\<lparr>wsClient := (wsClient s)\<lparr>transmitted := t\<rparr>\<rparr>) = g s
                         \<and> g (s\<lparr>console := c\<rparr>) = g s)"

definition selection_blind :: "(app \<Rightarrow> 'x) \<Rightarrow> bool" where
  "selection_blind g =
     (\<forall>s a. actions a = actions (actionSelector s) \<longrightarrow> g (s\<lparr>actionSelector := a\<rparr>) = g s)"

definition session_core :: "app \<Rightarrow> ready_state option \<times> bool \<times> bool \<times> bool \<times> promise" where
  "session_core s =
     (socket (wsClient s), connected (wsClient s), isEvaluating s, customActionsManager s,
      connectPromise s)"

section \<open>Example states\<close>

text \<open>
  The catalogue of the specification's scenario, and an application whose socket is open,
  with that catalogue loaded, nothing selected and the statistics at their reset values.
\<close>

definition squat :: json where
  "squat = JObj [(''id'', JStr ''a''), (''name'', JStr ''Squat''), (''up_angle'', JNum 170),
                 (''down_angle'', JNum 90), (''kpts'', JArr [JNum 11, JNum 13, JNum 15])]"

definition example_app :: app where
  "example_app =
     \<lparr>wsClient = \<lparr>socket = Some OPEN, connected = True, transmitted = []\<rparr>,
      actionSelector = \<lparr>actions = Some (JArr [squat]), selectedAction = Some JNull,
        currentActionElement = Lit not_selected, countElement = Lit ''0'',
        stageElement = Lit ''-'', stageColor = ''#2196F3'',
        angleElement = Lit (''0.0'' @ degree_sign)\<rparr>,
      isEvaluating = False, customActionsManager = True, alerts = [], console = [],
      sink = [], imageSources = [], fetchListeners = 1, fetchPromise = Fulfilled,
      connectPromise = Fulfilled, restRequests = 0\<rparr>"


text \<open>The same application with the squat selected, and with its evaluation started.\<close>

definition example_selected :: app where
  "example_selected = run_intents [SelectExercise ''a''] example_app"

definition example_evaluating :: app where
  "example_evaluating = run_intents [SelectExercise ''a'', Start] example_app"

text \<open>A stand-in for \<open>JSON.parse\<close> on text that is not JSON.\<close>

definition no_parse :: "string \<Rightarrow> json option" where
  "no_parse raw = None"

text \<open>
  Wire texts of the examples, and a stand-in for \<open>JSON.parse\<close> that gives these texts the
  values \<open>JSON.parse\<close> gives them and rejects every other text.
\<close>

definition result_text :: string where
  \<open>result_text = ''{"type":"result","count":3,"stage":"up","angle":142.7}''\<close>

definition result_message :: json where
  "result_message = JObj [(''type'', JStr ''result''), (''count'', JNum 3), (''stage'', JStr ''up''),
                          (''angle'', JNum 142.7)]"

definition frame_text :: string where
  \<open>frame_text = ''{"type":"processed_frame","data":"/9j/4AAQ"}''\<close>

definition frame_message :: json where
  "frame_message = JObj [(''type'', JStr ''processed_frame''), (''data'', JStr ''/9j/4AAQ'')]"

definition pose_text :: string where
  \<open>pose_text = ''{"type":"pose"}''\<close>

definition example_parse :: "string \<Rightarrow> json option" where
  "example_parse raw =
     (if raw = result_text then Some result_message
      else if raw = frame_text then Some frame_message
      else if raw = pose_text then Some (JObj [(''type'', JStr ''pose'')])
      else if raw = ''{}'' then Some (JObj [])
      else if raw = ''null'' then Some JNull
      else None)"

text \<open>A state after the socket has closed.\<close>

definition closed_socket :: "app \<Rightarrow> app" where
  "closed_socket s = s\<lparr>wsClient := (wsClient s)\<lparr>socket := Some CLOSED, connected := False\<rparr>\<rparr>"

section \<open>Frame lemmas\<close>

lemmas proc_defs = skip_do_def return_do_def throw_do_def step_do_def bind_do_def then_do_def
  eval_do_def try_catch_def console_do_def alert_do_def

lemma forEach_try_catch:
  "forEach (\<lambda>callback. try_catch (callback d) (\<lambda>error. console_do (Callback_failed eventName error))) cbs s =
     (Normal (),
      fold (\<lambda>callback s. case callback d s of
              (Normal v, s') \<Rightarrow> s'
            | (Throw e, s') \<Rightarrow> s'\<lparr>console := console s' @ [Callback_failed eventName e]\<rparr>) cbs s)"
  by (induction cbs arbitrary: s) (auto simp: proc_defs split: prod.splits completion.splits)

lemma preservesI: "(\<And>s. g (snd (p s)) = g s) \<Longrightarrow> preserves g p"
  by (simp add: preserves_def)

lemma preservesD: "preserves g p \<Longrightarrow> g (snd (p s)) = g s"
  by (simp add: preserves_def)

lemma preserves_skip: "preserves g skip_do"
  by (simp add: preserves_def skip_do_def)

lemma preserves_return: "preserves g (return_do v)"
  by (simp add: preserves_def return_do_def)

lemma preserves_throw: "preserves g (throw_do e)"
  by (simp add: preserves_def throw_do_def)

lemma preserves_step: "(\<And>s. g (f s) = g s) \<Longrightarrow> preserves g (step_do f)"
  by (simp add: preserves_def step_do_def)

lemma preserves_bind:
  "preserves g p \<Longrightarrow> (\<And>v. preserves g (k v)) \<Longrightarrow> preserves g (bind_do p k)"
  unfolding preserves_def bind_do_def
  by (auto split: prod.splits completion.splits) (metis snd_conv)+

lemma preserves_then: "preserves g p \<Longrightarrow> preserves g q \<Longrightarrow> preserves g (then_do p q)"
  by (simp add: then_do_def preserves_bind)

lemma preserves_eval: "(\<And>v. preserves g (k v)) \<Longrightarrow> preserves g (eval_do c k)"
  unfolding preserves_def eval_do_def by (auto split: completion.splits)

lemma preserves_try_catch:
  "preserves g p \<Longrightarrow> (\<And>e. preserves g (h e)) \<Longrightarrow> preserves g (try_catch p h)"
  unfolding preserves_def try_catch_def
  by (auto split: prod.splits completion.splits) (metis snd_conv)+

lemma preserves_forEach: "(\<And>x. x \<in> set xs \<Longrightarrow> preserves g (f x)) \<Longrightarrow> preserves g (forEach f xs)"
proof (induction xs)
  case Nil
  show ?case by (simp add: preserves_def)
next
  case (Cons x xs)
  have px: "preserves g (f x)" and pxs: "preserves g (forEach f xs)"
    using Cons by simp_all
  show ?case
    unfolding preserves_def
  proof
    fix s
    obtain c s' where fx: "f x s = (c, s')" by (cases "f x s")
    have "g s' = g s" using preservesD [OF px, of s] fx by simp
    moreover have "g (snd (forEach f xs s')) = g s'" by (rule preservesD [OF pxs])
    ultimately show "g (snd (forEach f (x # xs) s)) = g s"
      using fx by (cases c) simp_all
  qed
qed


lemma preserves_if: "preserves g p \<Longrightarrow> preserves g q \<Longrightarrow> preserves g (if b then p else q)"
  by simp

lemma preserves_cond:
  "preserves g p \<Longrightarrow> preserves g q \<Longrightarrow> preserves g (\<lambda>s. if b s then p s else q s)"
  by (simp add: preserves_def)

lemma preserves_case_option:
  "preserves g p \<Longrightarrow> (\<And>v. preserves g (q v)) \<Longrightarrow> preserves g (case x of None \<Rightarrow> p | Some v \<Rightarrow> q v)"
  by (cases x) simp_all

lemma preserves_case_json:
  "preserves g p1 \<Longrightarrow> (\<And>b. preserves g (p2 b)) \<Longrightarrow> (\<And>n. preserves g (p3 n)) \<Longrightarrow>
   (\<And>t. preserves g (p4 t)) \<Longrightarrow> (\<And>xs. preserves g (p5 xs)) \<Longrightarrow> (\<And>kvs. preserves g (p6 kvs)) \<Longrightarrow>
   preserves g (case x of JNull \<Rightarrow> p1 | JBool b \<Rightarrow> p2 b | JNum n \<Rightarrow> p3 n | JStr t \<Rightarrow> p4 t
                  | JArr xs \<Rightarrow> p5 xs | JObj kvs \<Rightarrow> p6 kvs)"
  by (cases x) simp_all

lemma preserves_pure: "preserves g (\<lambda>s. (c s, s))"
  by (simp add: preserves_def)

lemma preserves_send: "io_blind g \<Longrightarrow> preserves g (send m)"
  unfolding preserves_def send_def io_blind_def in_ws_def
  by (auto split: option.splits)

lemma preserves_console: "io_blind g \<Longrightarrow> preserves g (console_do e)"
  unfolding console_do_def by (rule preserves_step) (simp add: io_blind_def)

lemma preserves_notifyCallbacks:
  assumes "io_blind g" and "\<And>cbs cb. callbacks eventName = Some cbs \<Longrightarrow> cb \<in> set cbs \<Longrightarrow> preserves g (cb d)"
  shows "preserves g (notifyCallbacks callbacks eventName d)"
  unfolding notifyCallbacks_def using assms
  by (auto split: option.splits intro!: preserves_skip preserves_forEach preserves_try_catch preserves_console)

lemma preserves_listener: "io_blind g \<Longrightarrow> preserves g (onActionChange_listener action)"
  unfolding onActionChange_listener_def sendActionSelect_def
  by (intro preserves_cond preserves_eval preserves_bind preserves_send preserves_skip preserves_pure)

lemma preserves_ActionSelector_notify: "io_blind g \<Longrightarrow> preserves g (ActionSelector_notify eventName d)"
  unfolding ActionSelector_notify_def
  by (rule preserves_notifyCallbacks) (auto simp: selector_callbacks_def preserves_listener split: if_splits)

lemma preserves_resetStats: "selection_blind g \<Longrightarrow> preserves g resetStats"
  unfolding resetStats_def by (rule preserves_step) (simp add: selection_blind_def in_selector_def)

lemma preserves_handleActionChange:
  "io_blind g \<Longrightarrow> selection_blind g \<Longrightarrow> preserves g (handleActionChange actionId)"
  unfolding handleActionChange_def
  by (intro preserves_then preserves_if preserves_bind preserves_eval preserves_skip preserves_pure
        preserves_ActionSelector_notify preserves_resetStats preserves_step)
     (simp_all add: selection_blind_def in_selector_def)


lemma io_blind_core: "io_blind session_core"
  by (simp add: io_blind_def session_core_def)

lemma selection_blind_core: "selection_blind session_core"
  by (simp add: selection_blind_def session_core_def)

lemmas core_intros = preserves_case_option preserves_case_json preserves_then preserves_if preserves_cond preserves_bind preserves_eval
  preserves_skip preserves_return preserves_throw preserves_pure preserves_try_catch
  preserves_send [OF io_blind_core] preserves_console [OF io_blind_core]
  preserves_ActionSelector_notify [OF io_blind_core]
  preserves_resetStats [OF selection_blind_core]
  preserves_handleActionChange [OF io_blind_core selection_blind_core]

lemma core_populate: "preserves session_core populateActionSelect"
  by (simp add: preserves_def populateActionSelect_def split: option.splits json.splits)

lemma core_updateActions: "preserves session_core (updateActions acts)"
  unfolding updateActions_def
  by (intro core_intros core_populate preserves_step)
     (simp_all add: session_core_def in_selector_def)

lemma core_updateStats: "preserves session_core (updateStats c st an)"
  unfolding updateStats_def
  by (intro core_intros preserves_step) (simp_all add: session_core_def in_selector_def)


lemma core_handleProcessedFrame: "preserves session_core (handleProcessedFrame result)"
  unfolding handleProcessedFrame_def
  by (intro core_intros preserves_step) (simp_all add: session_core_def)

lemma core_message_switch: "preserves session_core (message_switch message ty)"
  unfolding message_switch_def
  by (intro core_intros core_handleProcessedFrame core_updateStats core_updateActions)

lemma core_handleWebSocketMessage: "preserves session_core (handleWebSocketMessage parse ev)"
  unfolding handleWebSocketMessage_def
  by (intro core_intros core_message_switch)

lemma core_fetch_handleMessage: "preserves session_core (fetch_handleMessage parse ev)"
  unfolding fetch_handleMessage_def
  by (intro core_intros core_populate preserves_step)
     (simp_all add: session_core_def in_selector_def resolve_fetch_def)

lemma core_fetchActions_rejected: "preserves session_core fetchActions_rejected"
  unfolding fetchActions_rejected_def
  by (intro core_intros preserves_step) (simp_all add: session_core_def)

lemma core_fetchActions_begin: "preserves session_core fetchActions_begin"
  unfolding fetchActions_begin_def requestActions_def
  by (intro core_intros core_fetchActions_rejected preserves_step) (simp_all add: session_core_def)

lemma core_fetch_timeout: "preserves session_core fetch_timeout"
  unfolding fetch_timeout_def
  by (intro core_intros core_fetchActions_rejected)

lemma core_notify: "preserves session_core (notifyCallbacks (ws_callbacks parse n) eventName ev)"
  by (rule preserves_notifyCallbacks [OF io_blind_core])
     (auto simp: ws_callbacks_def core_handleWebSocketMessage core_fetch_handleMessage
        core_fetchActions_begin preserves_skip preserves_console [OF io_blind_core]
        split: if_splits)

lemma core_WebSocketClient_notify: "preserves session_core (WebSocketClient_notify parse eventName ev)"
  using core_notify by (simp add: preserves_def WebSocketClient_notify_def)

lemma core_socket_onmessage: "preserves session_core (socket_onmessage parse raw)"
  by (simp add: socket_onmessage_def core_WebSocketClient_notify)

lemma core_fetchActionsRest: "preserves session_core (fetchActionsRest outcome)"
  unfolding fetchActionsRest_def
  by (cases outcome)
     (auto intro!: core_intros core_populate preserves_step simp: session_core_def in_selector_def)

lemma core_fetchActions_fallback: "preserves session_core (fetchActions_fallback outcome)"
  unfolding fetchActions_fallback_def alert_do_def
  by (intro core_intros core_fetchActionsRest preserves_step) (simp_all add: session_core_def)

lemma core_sendSettingsToBackend: "preserves session_core (sendSettingsToBackend settings)"
  unfolding sendSettingsToBackend_def sendSettings_def
  by (intro core_intros)

lemma transport_consistent_core:
  "session_core s' = session_core s \<Longrightarrow> transport_consistent s' = transport_consistent s"
  by (simp add: session_core_def transport_consistent_def)

lemma transport_of_send:
  "socket (wsClient (snd (send m s))) = socket (wsClient s)
   \<and> connected (wsClient (snd (send m s))) = connected (wsClient s)"
  by (simp add: send_def in_ws_def split: option.splits)

lemma send_consistent:
  "transport_consistent s \<Longrightarrow>
   send m s = (if socket (wsClient s) = Some OPEN
               then (Normal True, in_ws (\<lambda>w. w\<lparr>transmitted := transmitted w @ [m]\<rparr>) s)
               else (Normal False, s\<lparr>console := console s @ [Send_refused]\<rparr>))"
  by (auto simp: send_def transport_consistent_def in_ws_def split: option.splits)

lemma get_prop_truthy: "truthy v \<Longrightarrow> \<exists>x. get_prop v k = Normal x"
  by (induction v k rule: get_prop.induct) simp_all

lemma startEvaluation_rejected:
  "\<not> truthy (selectedAction (actionSelector s)) \<or> \<not> isConnected s \<Longrightarrow>
   startEvaluation s =
     (Normal (), s\<lparr>alerts := alerts s @
        [if \<not> truthy (selectedAction (actionSelector s)) then Select_action_first
         else Connection_not_open]\<rparr>)"
  by (auto simp: startEvaluation_def Let_def alert_do_def step_do_def)

lemma startEvaluation_accepted:
  assumes "truthy (selectedAction (actionSelector s))" and "isConnected s"
    and "get_prop (selectedAction (actionSelector s)) ''id'' = Normal i"
  shows "startEvaluation s =
     (if connected (wsClient s)
      then (Normal (), s\<lparr>isEvaluating := True,
              wsClient := (wsClient s)\<lparr>transmitted := transmitted (wsClient s) @ [Start_evaluation i]\<rparr>\<rparr>)
      else (Normal (), s\<lparr>isEvaluating := True, console := console s @ [Send_refused]\<rparr>))"
  using assms
  by (simp add: startEvaluation_def Let_def proc_defs ws_startEvaluation_def send_def in_ws_def
        isConnected_def)

lemma stopEvaluation_eq:
  "stopEvaluation s =
     (if connected (wsClient s) then
        (case socket (wsClient s) of
           None \<Rightarrow> (Normal (), s\<lparr>isEvaluating := False, console := console s @ [Stop_error TypeError],
                       alerts := alerts s @ [Stop_failed]\<rparr>)
         | Some rs \<Rightarrow>
             if rs = OPEN
             then resetStats (s\<lparr>isEvaluating := False,
                    wsClient := (wsClient s)\<lparr>transmitted := transmitted (wsClient s) @ [Stop_evaluation]\<rparr>\<rparr>)
             else resetStats (s\<lparr>isEvaluating := False, console := console s @ [Send_refused]\<rparr>))
      else resetStats (s\<lparr>isEvaluating := False, console := console s @ [Send_refused]\<rparr>))"
  by (simp add: stopEvaluation_def proc_defs ws_stopEvaluation_def send_def in_ws_def
        resetStats_def in_selector_def split: option.splits)

lemma transport_startEvaluation:
  "socket (wsClient (snd (startEvaluation s))) = socket (wsClient s)
   \<and> connected (wsClient (snd (startEvaluation s))) = connected (wsClient s)"
proof (cases "truthy (selectedAction (actionSelector s)) \<and> isConnected s")
  case True
  then obtain i where "get_prop (selectedAction (actionSelector s)) ''id'' = Normal i"
    using get_prop_truthy by blast
  with True show ?thesis by (simp add: startEvaluation_accepted)
next
  case False
  then show ?thesis by (simp add: startEvaluation_rejected)
qed

lemma transport_stopEvaluation:
  "socket (wsClient (snd (stopEvaluation s))) = socket (wsClient s)
   \<and> connected (wsClient (snd (stopEvaluation s))) = connected (wsClient s)"
  by (simp add: stopEvaluation_eq resetStats_def step_do_def in_selector_def
        split: option.splits)

lemma consistent_preserved:
  "preserves session_core p \<Longrightarrow> transport_consistent s \<Longrightarrow> transport_consistent (snd (p s))"
  using transport_consistent_core [of "snd (p s)" s] by (simp add: preserves_def)

lemma consistent_intent: "transport_consistent s \<Longrightarrow> transport_consistent (intent_step i s)"
proof (cases i)
  case (SelectExercise v)
  assume "transport_consistent s"
  then show ?thesis
    unfolding SelectExercise intent_step.simps
    by (rule consistent_preserved [OF preserves_handleActionChange [OF io_blind_core selection_blind_core]])
next
  case Start
  assume "transport_consistent s"
  then show ?thesis
    using transport_startEvaluation [of s] by (simp add: Start transport_consistent_def)
next
  case Stop
  assume "transport_consistent s"
  then show ?thesis
    using transport_stopEvaluation [of s] by (simp add: Stop transport_consistent_def)
qed

lemma consistent_onopen: "transport_consistent (snd (socket_onopen parse s))"
proof -
  define s1 where "s1 = in_ws (\<lambda>w. w\<lparr>connected := True\<rparr>) (in_ws (\<lambda>w. w\<lparr>socket := Some OPEN\<rparr>) s)"
  obtain c s2 where n: "WebSocketClient_notify parse ''onOpen'' Event s1 = (c, s2)"
    by (cases "WebSocketClient_notify parse ''onOpen'' Event s1")
  have "session_core s2 = session_core s1"
    using preservesD [OF core_WebSocketClient_notify, of parse "''onOpen''" Event s1] n by simp
  then have "transport_consistent s2"
    by (simp add: session_core_def transport_consistent_def s1_def in_ws_def)
  then show ?thesis
    using n unfolding socket_onopen_def s1_def
    by (cases c) (auto simp: proc_defs transport_consistent_def)
qed

lemma consistent_onclose: "transport_consistent (snd (socket_onclose parse s))"
proof -
  define s1 where "s1 = in_ws (\<lambda>w. w\<lparr>connected := False\<rparr>) (in_ws (\<lambda>w. w\<lparr>socket := Some CLOSED\<rparr>) s)"
  have "session_core (snd (WebSocketClient_notify parse ''onClose'' Event s1)) = session_core s1"
    by (rule preservesD [OF core_WebSocketClient_notify])
  then have "transport_consistent (snd (WebSocketClient_notify parse ''onClose'' Event s1))"
    by (simp add: session_core_def transport_consistent_def s1_def in_ws_def)
  then show ?thesis
    unfolding socket_onclose_def s1_def
    by (auto simp: proc_defs split: prod.splits completion.splits)
qed

lemma consistent_onerror:
  "transport_consistent s \<Longrightarrow> transport_consistent (snd (socket_onerror parse s))"
proof -
  assume c: "transport_consistent s"
  define s1 where "s1 = (in_ws (\<lambda>w. w\<lparr>socket := Some CLOSED\<rparr>) s)\<lparr>console := console s @ [Socket_failed]\<rparr>"
  have "session_core (snd (WebSocketClient_notify parse ''onError'' Event s1)) = session_core s1"
    by (rule preservesD [OF core_WebSocketClient_notify])
  then have "transport_consistent (snd (WebSocketClient_notify parse ''onError'' Event s1))"
    using c by (simp add: session_core_def transport_consistent_def s1_def in_ws_def)
  then show ?thesis
    unfolding socket_onerror_def s1_def
    by (auto simp: proc_defs in_ws_def transport_consistent_def split: prod.splits completion.splits)
qed

lemma consistent_step: "transport_consistent s \<Longrightarrow> transport_consistent (app_step parse i s)"
proof -
  assume c: "transport_consistent s"
  show ?thesis
  proof (cases i)
    case Connect
    then show ?thesis
      using c by (auto simp: connect_def proc_defs in_ws_def transport_consistent_def)
  next
    case Socket_open
    then show ?thesis using c by (simp add: consistent_onopen)
  next
    case Socket_close
    then show ?thesis using c by (simp add: consistent_onclose)
  next
    case Socket_error
    then show ?thesis using c by (simp add: consistent_onerror)
  next
    case (Socket_message raw)
    then show ?thesis
      using c consistent_preserved [OF core_socket_onmessage c] by simp
  next
    case Disconnect
    then show ?thesis
      using c by (auto simp: disconnect_def proc_defs in_ws_def transport_consistent_def)
  next
    case (Intent x)
    then show ?thesis using c by (simp add: consistent_intent)
  next
    case Fetch_timeout
    then show ?thesis using consistent_preserved [OF core_fetch_timeout c] by simp
  next
    case (Rest_settled outcome)
    then show ?thesis using consistent_preserved [OF core_fetchActions_fallback c] by simp
  next
    case (Catalogue_edited acts)
    then show ?thesis using consistent_preserved [OF core_updateActions c] by simp
  next
    case (Settings_changed settings)
    then show ?thesis using consistent_preserved [OF core_sendSettingsToBackend c] by simp
  qed
qed

lemma consistent_run: "transport_consistent s \<Longrightarrow> transport_consistent (app_run parse inputs s)"
  by (induction inputs arbitrary: s) (simp_all add: consistent_step)

lemma consistent_fresh: "transport_consistent (s\<lparr>wsClient := WebSocketClient\<rparr>)"
  by (simp add: transport_consistent_def WebSocketClient_def)

section \<open>The example states, evaluated\<close>

lemma notify_selector_example:
  "ActionSelector_notify ''onActionChange'' d s = 
     (case onActionChange_listener d s of (Normal v, s') \<Rightarrow> (Normal (), s')
        | (Throw e, s') \<Rightarrow> (Normal (), s'\<lparr>console := console s' @ [Callback_failed ''onActionChange'' e]\<rparr>))"
  by (simp add: ActionSelector_notify_def notifyCallbacks_def selector_callbacks_def proc_defs
        split: prod.splits completion.splits)

lemma example_selected_eq:
  "example_selected =
     example_app\<lparr>actionSelector := (actionSelector example_app)\<lparr>selectedAction := Some squat,
                    currentActionElement := ToString (Some (JStr ''Squat''))\<rparr>,
                 wsClient := (wsClient example_app)\<lparr>transmitted := [Action_select (Some (JStr ''a''))]\<rparr>\<rparr>"
  by (simp add: example_selected_def example_app_def handleActionChange_def proc_defs
        actions_find_def squat_def notify_selector_example onActionChange_listener_def
        isConnected_def sendActionSelect_def send_def in_ws_def in_selector_def resetStats_def)

lemma example_evaluating_eq:
  "example_evaluating =
     example_app\<lparr>actionSelector := (actionSelector example_app)\<lparr>selectedAction := Some squat,
                    currentActionElement := ToString (Some (JStr ''Squat''))\<rparr>,
                 wsClient := (wsClient example_app)\<lparr>transmitted :=
                    [Action_select (Some (JStr ''a'')), Start_evaluation (Some (JStr ''a''))]\<rparr>,
                 isEvaluating := True\<rparr>"
proof -
  have "example_evaluating = snd (startEvaluation example_selected)"
    by (simp add: example_evaluating_def example_selected_def)
  also have "\<dots> = example_app\<lparr>actionSelector := (actionSelector example_app)\<lparr>selectedAction := Some squat,
                    currentActionElement := ToString (Some (JStr ''Squat''))\<rparr>,
                 wsClient := (wsClient example_app)\<lparr>transmitted :=
                    [Action_select (Some (JStr ''a'')), Start_evaluation (Some (JStr ''a''))]\<rparr>,
                 isEvaluating := True\<rparr>"
    unfolding example_selected_eq
    by (simp add: startEvaluation_def Let_def proc_defs example_app_def squat_def isConnected_def
          ws_startEvaluation_def send_def in_ws_def)
  finally show ?thesis .
qed

section \<open>Socket handlers and the evaluating flag\<close>

lemma ws_notify_onClose: "WebSocketClient_notify parse ''onClose'' Event s = (Normal (), s)"
  by (simp add: WebSocketClient_notify_def notifyCallbacks_def ws_callbacks_def proc_defs)

lemma ws_notify_onError:
  "WebSocketClient_notify parse ''onError'' Event s = (Normal (), s\<lparr>console := console s @ [Socket_failed]\<rparr>)"
  by (simp add: WebSocketClient_notify_def notifyCallbacks_def ws_callbacks_def proc_defs)

lemma socket_onclose_eq:
  "socket_onclose parse s =
     (Normal (), s\<lparr>wsClient := (wsClient s)\<lparr>socket := Some CLOSED, connected := False\<rparr>\<rparr>)"
  by (simp add: socket_onclose_def then_do_def bind_do_def step_do_def in_ws_def ws_notify_onClose)

lemma socket_onerror_eq:
  "socket_onerror parse s =
     (Normal (),
      if connectPromise s = Pending
      then s\<lparr>wsClient := (wsClient s)\<lparr>socket := Some CLOSED\<rparr>,
             console := console s @ [Socket_failed, Socket_failed], connectPromise := Rejected,
             alerts := alerts s @ [Init_failed]\<rparr>
      else s\<lparr>wsClient := (wsClient s)\<lparr>socket := Some CLOSED\<rparr>,
             console := console s @ [Socket_failed, Socket_failed]\<rparr>)"
  by (simp add: socket_onerror_def then_do_def bind_do_def step_do_def console_do_def alert_do_def in_ws_def
        ws_notify_onError)

lemma evaluating_core: "session_core s' = session_core s \<Longrightarrow> isEvaluating s' = isEvaluating s"
  by (simp add: session_core_def)

lemma evaluating_preserved: "preserves session_core p \<Longrightarrow> isEvaluating (snd (p s)) = isEvaluating s"
  using evaluating_core [of "snd (p s)" s] by (simp add: preserves_def)

lemma evaluating_onopen: "isEvaluating (snd (socket_onopen parse s)) = isEvaluating s"
proof -
  define s1 where "s1 = in_ws (\<lambda>w. w\<lparr>connected := True\<rparr>) (in_ws (\<lambda>w. w\<lparr>socket := Some OPEN\<rparr>) s)"
  obtain c s2 where n: "WebSocketClient_notify parse ''onOpen'' Event s1 = (c, s2)"
    by (cases "WebSocketClient_notify parse ''onOpen'' Event s1")
  have "isEvaluating s2 = isEvaluating s1"
    using evaluating_preserved [OF core_WebSocketClient_notify, of parse "''onOpen''" Event s1] n
    by simp
  then have "isEvaluating s2 = isEvaluating s" by (simp add: s1_def in_ws_def)
  then show ?thesis
    using n unfolding socket_onopen_def s1_def
    by (cases c) (auto simp: proc_defs)
qed

lemma evaluating_stop: "\<not> isEvaluating (snd (stopEvaluation s))"
  by (simp add: stopEvaluation_eq resetStats_def step_do_def in_selector_def
        split: option.splits)

lemma evaluating_step:
  "\<not> isEvaluating s \<Longrightarrow> i \<noteq> Intent Start \<Longrightarrow> \<not> isEvaluating (app_step parse i s)"
proof -
  assume e: "\<not> isEvaluating s" and i: "i \<noteq> Intent Start"
  show ?thesis
  proof (cases i)
    case Connect
    then show ?thesis using e by (simp add: connect_def proc_defs in_ws_def)
  next
    case Socket_open
    then show ?thesis using e by (simp add: evaluating_onopen)
  next
    case Socket_close
    then show ?thesis using e by (simp add: socket_onclose_eq)
  next
    case Socket_error
    then show ?thesis using e by (simp add: socket_onerror_eq)
  next
    case (Socket_message raw)
    then show ?thesis using e by (simp add: evaluating_preserved [OF core_socket_onmessage])
  next
    case Disconnect
    then show ?thesis using e by (simp add: disconnect_def proc_defs in_ws_def)
  next
    case (Intent x)
    show ?thesis
    proof (cases x)
      case (SelectExercise v)
      then show ?thesis
        using e Intent
        by (simp add: evaluating_preserved
              [OF preserves_handleActionChange [OF io_blind_core selection_blind_core]])
    next
      case Start
      then show ?thesis using i Intent by simp
    next
      case Stop
      then show ?thesis using Intent by (simp add: evaluating_stop)
    qed
  next
    case Fetch_timeout
    then show ?thesis using e by (simp add: evaluating_preserved [OF core_fetch_timeout])
  next
    case (Rest_settled outcome)
    then show ?thesis using e by (simp add: evaluating_preserved [OF core_fetchActions_fallback])
  next
    case (Catalogue_edited acts)
    then show ?thesis using e by (simp add: evaluating_preserved [OF core_updateActions])
  next
    case (Settings_changed settings)
    then show ?thesis using e by (simp add: evaluating_preserved [OF core_sendSettingsToBackend])
  qed
qed

section \<open>Intents and the session invariant\<close>

lemma io_blind_actions: "io_blind (\<lambda>s. actions (actionSelector s))"
  by (simp add: io_blind_def)

lemma selection_blind_actions: "selection_blind (\<lambda>s. actions (actionSelector s))"
  by (simp add: selection_blind_def)

lemma io_blind_selection: "io_blind (\<lambda>s. selectedAction (actionSelector s))"
  by (simp add: io_blind_def)

lemma selection_resetStats: "preserves (\<lambda>s. selectedAction (actionSelector s)) resetStats"
  unfolding resetStats_def by (rule preserves_step) (simp add: in_selector_def)

lemma connected_core: "session_core s' = session_core s \<Longrightarrow> isConnected s' = isConnected s"
  by (simp add: session_core_def isConnected_def)

lemma startEvaluation_cases:
  obtains (rejected) "\<not> truthy (selectedAction (actionSelector s)) \<or> \<not> isConnected s"
      "startEvaluation s = (Normal (), s\<lparr>alerts := alerts s @
        [if \<not> truthy (selectedAction (actionSelector s)) then Select_action_first
         else Connection_not_open]\<rparr>)"
  | (sent) i where "truthy (selectedAction (actionSelector s))" "isConnected s"
      "startEvaluation s = (Normal (), s\<lparr>isEvaluating := True,
              wsClient := (wsClient s)\<lparr>transmitted := transmitted (wsClient s) @ [Start_evaluation i]\<rparr>\<rparr>)"
  | (refused) "truthy (selectedAction (actionSelector s))" "isConnected s"
      "startEvaluation s = (Normal (), s\<lparr>isEvaluating := True, console := console s @ [Send_refused]\<rparr>)"
proof (cases "truthy (selectedAction (actionSelector s)) \<and> isConnected s")
  case True
  then obtain i where i: "get_prop (selectedAction (actionSelector s)) ''id'' = Normal i"
    using get_prop_truthy by blast
  show ?thesis
  proof (cases "connected (wsClient s)")
    case c: True
    show ?thesis using True c startEvaluation_accepted [OF _ _ i] sent by simp
  next
    case c: False
    show ?thesis using True c startEvaluation_accepted [OF _ _ i] refused by simp
  qed
next
  case False
  then show ?thesis using startEvaluation_rejected [of s] rejected by blast
qed

lemma start_frame:
  "actions (actionSelector (snd (startEvaluation s))) = actions (actionSelector s)
   \<and> selectedAction (actionSelector (snd (startEvaluation s))) = selectedAction (actionSelector s)
   \<and> isConnected (snd (startEvaluation s)) = isConnected s
   \<and> (isEvaluating (snd (startEvaluation s)) \<longrightarrow>
         isEvaluating s \<or> truthy (selectedAction (actionSelector s)) \<and> isConnected s)"
  by (cases s rule: startEvaluation_cases) (simp_all add: isConnected_def)

lemma stop_frame:
  "actions (actionSelector (snd (stopEvaluation s))) = actions (actionSelector s)
   \<and> selectedAction (actionSelector (snd (stopEvaluation s))) = selectedAction (actionSelector s)
   \<and> isConnected (snd (stopEvaluation s)) = isConnected s
   \<and> \<not> isEvaluating (snd (stopEvaluation s))"
  by (simp add: stopEvaluation_eq resetStats_def step_do_def in_selector_def isConnected_def
        split: option.splits)

lemma change_frame:
  "actions (actionSelector (snd (handleActionChange v s))) = actions (actionSelector s)
   \<and> isConnected (snd (handleActionChange v s)) = isConnected s
   \<and> isEvaluating (snd (handleActionChange v s)) = isEvaluating s"
  using preservesD [OF preserves_handleActionChange [OF io_blind_actions selection_blind_actions], of v s]
    preservesD [OF preserves_handleActionChange [OF io_blind_core selection_blind_core], of v s]
  by (simp add: session_core_def isConnected_def)

lemma change_resolved:
  assumes "resolves (actions (actionSelector s)) v"
  shows "truthy (selectedAction (actionSelector (snd (handleActionChange v s))))"
proof -
  from assms obtain found where v: "v \<noteq> []"
    and f: "actions_find (actions (actionSelector s)) (Some (JStr v)) = Normal found"
    and t: "truthy found"
    by (auto simp: resolves_def split: completion.splits)
  obtain nm where nm: "get_prop found ''name'' = Normal nm"
    using get_prop_truthy [OF t] by blast
  define s2 where "s2 = in_selector (\<lambda>a. a\<lparr>currentActionElement := ToString nm\<rparr>)
                          (in_selector (\<lambda>a. a\<lparr>selectedAction := found\<rparr>) s)"
  have eq: "handleActionChange v s =
      then_do (ActionSelector_notify ''onActionChange'' found) resetStats s2"
    using v f t nm by (simp add: handleActionChange_def proc_defs s2_def)
  have "preserves (\<lambda>s. selectedAction (actionSelector s))
          (then_do (ActionSelector_notify ''onActionChange'' found) resetStats)"
    by (intro preserves_then preserves_ActionSelector_notify io_blind_selection selection_resetStats)
  then have "selectedAction (actionSelector (snd (handleActionChange v s)))
             = selectedAction (actionSelector s2)"
    unfolding eq by (rule preservesD)
  also have "\<dots> = found" by (simp add: s2_def in_selector_def)
  finally show ?thesis using t by simp
qed

lemma connected_inv_step:
  "(isEvaluating s \<longrightarrow> isConnected s) \<Longrightarrow>
   (isEvaluating (intent_step i s) \<longrightarrow> isConnected (intent_step i s))"
  using start_frame [of s] stop_frame [of s]
  by (cases i) (auto simp: change_frame)

lemma connected_inv_run:
  "(isEvaluating s \<longrightarrow> isConnected s) \<Longrightarrow>
   (isEvaluating (run_intents is s) \<longrightarrow> isConnected (run_intents is s))"
proof (induction "is" arbitrary: s)
  case Nil
  then show ?case by simp
next
  case (Cons i "is")
  show ?case
    using Cons.IH [OF connected_inv_step [OF Cons.prems, of i]] by simp
qed

lemma session_inv_step:
  assumes "session_inv s"
    and "\<And>v. i = SelectExercise v \<Longrightarrow> resolves (actions (actionSelector s)) v"
  shows "session_inv (intent_step i s)"
proof (cases i)
  case (SelectExercise v)
  then show ?thesis
    using assms change_resolved [of s v] change_frame [of v s]
    by (simp add: session_inv_def)
next
  case Start
  then show ?thesis
    using assms(1) start_frame [of s] by (auto simp: session_inv_def)
next
  case Stop
  then show ?thesis
    using stop_frame [of s] by (simp add: session_inv_def)
qed

lemma actions_intent: "actions (actionSelector (intent_step i s)) = actions (actionSelector s)"
  using start_frame [of s] stop_frame [of s] by (cases i) (simp_all add: change_frame)

lemma session_inv_run:
  "session_inv s \<Longrightarrow>
   (\<And>v. SelectExercise v \<in> set is \<Longrightarrow> resolves (actions (actionSelector s)) v) \<Longrightarrow>
   session_inv (run_intents is s)"
proof (induction "is" arbitrary: s)
  case Nil
  then show ?case by simp
next
  case (Cons i "is")
  have 1: "session_inv (intent_step i s)"
    by (rule session_inv_step [OF Cons.prems(1)]) (simp add: Cons.prems(2))
  have 2: "\<And>v. SelectExercise v \<in> set is \<Longrightarrow> resolves (actions (actionSelector (intent_step i s))) v"
    by (simp add: actions_intent Cons.prems(2))
  show ?case using Cons.IH [OF 1 2] by simp
qed

section \<open>Catalogue refresh: helper facts\<close>








lemma listener_null: "onActionChange_listener (Some JNull) s = (Normal (), s)"
  by (simp add: onActionChange_listener_def)




lemma example_evaluating_consistent: "transport_consistent example_evaluating"
  by (simp add: example_evaluating_eq transport_consistent_def example_app_def)

section \<open>Inbound dispatch: helper facts\<close>

lemma then_step: "then_do (step_do f) q s = q (f s)"
  by (simp add: proc_defs)

lemma handler_normal: "fst (handleWebSocketMessage parse ev s) = Normal ()"
  by (simp add: handleWebSocketMessage_def try_catch_def console_do_def step_do_def
        split: prod.splits completion.splits)

lemma fetch_handler_normal: "fst (fetch_handleMessage parse ev s) = Normal ()"
  by (simp add: fetch_handleMessage_def try_catch_def console_do_def step_do_def
        split: prod.splits completion.splits)

lemma fold_replicate_fix: "(\<And>t. g x t = t) \<Longrightarrow> fold g (replicate n x) s = s"
  by (induction n) simp_all

lemma socket_onmessage_fold:
  "socket_onmessage parse raw s =
     (Normal (),
      fold (\<lambda>callback s. snd (callback (MessageEvent raw) s))
        (replicate (fetchListeners s) (fetch_handleMessage parse))
        (snd (handleWebSocketMessage parse (MessageEvent raw) s)))"
proof -
  have h: "(case handleWebSocketMessage parse ev t of
              (Normal v, s') \<Rightarrow> s'
            | (Throw e, s') \<Rightarrow> s'\<lparr>console := console s' @ [Callback_failed n e]\<rparr>)
           = snd (handleWebSocketMessage parse ev t)" for ev t n
    using handler_normal [of parse ev t]
    by (cases "handleWebSocketMessage parse ev t") (auto split: completion.splits)
  have f: "(case fetch_handleMessage parse ev t of
              (Normal v, s') \<Rightarrow> s'
            | (Throw e, s') \<Rightarrow> s'\<lparr>console := console s' @ [Callback_failed n e]\<rparr>)
           = snd (fetch_handleMessage parse ev t)" for ev t n
    using fetch_handler_normal [of parse ev t]
    by (cases "fetch_handleMessage parse ev t") (auto split: completion.splits)
  have f': "(\<lambda>t. case fetch_handleMessage parse ev t of
              (Normal v, s') \<Rightarrow> s'
            | (Throw e, s') \<Rightarrow> s'\<lparr>console := console s' @ [Callback_failed n e]\<rparr>)
           = (\<lambda>t. snd (fetch_handleMessage parse ev t))" for ev n
    by (rule ext) (rule f)
  show ?thesis
    by (simp add: socket_onmessage_def WebSocketClient_notify_def notifyCallbacks_def
          ws_callbacks_def forEach_try_catch h f')
qed

lemma fetch_handler_ignores:
  assumes "parse raw = Some m" and "get_prop (Some m) ''type'' = Normal ty"
    and "ty \<noteq> Some (JStr ''actions_list'')"
  shows "fetch_handleMessage parse (MessageEvent raw) s = (Normal (), s)"
  using assms by (simp add: fetch_handleMessage_def parse_event_def proc_defs)

lemma socket_onmessage_other:
  assumes "parse raw = Some m" and "get_prop (Some m) ''type'' = Normal ty"
    and "ty \<noteq> Some (JStr ''actions_list'')"
  shows "socket_onmessage parse raw s =
     (Normal (), snd (handleWebSocketMessage parse (MessageEvent raw) s))"
proof -
  have "snd (fetch_handleMessage parse (MessageEvent raw) t) = t" for t
    using assms by (simp add: fetch_handler_ignores)
  then have "fold (\<lambda>callback s. snd (callback (MessageEvent raw) s))
        (replicate k (fetch_handleMessage parse)) t = t" for k t
    by (intro fold_replicate_fix)
  then show ?thesis
    by (simp only: socket_onmessage_fold)
qed

lemma sink_message_object: "sink_message m \<Longrightarrow> \<exists>kvs. m = JObj kvs"
  by (cases m) (simp_all add: sink_message_def)

lemma sink_updateStats: "sink (snd (updateStats c st an s)) = sink s @ [Stats c st an]"
proof -
  have "preserves sink
     (then_do (if c \<noteq> None
              then step_do (in_selector (\<lambda>a. a\<lparr>countElement := ToString c\<rparr>))
              else skip_do)
    (then_do (if st \<noteq> None
              then (case st of
                      Some (JStr x) \<Rightarrow>
                        step_do (in_selector (\<lambda>a. a\<lparr>stageElement := UpperCase x,
                          stageColor := stage_colour x\<rparr>))
                    | _ \<Rightarrow> throw_do TypeError)
              else skip_do)
             (if an \<noteq> None
              then (case an of
                      Some (JNum a) \<Rightarrow> step_do (in_selector (\<lambda>sel. sel\<lparr>angleElement := Fixed1 a\<rparr>))
                    | _ \<Rightarrow> throw_do TypeError)
              else skip_do)))"
    by (intro preserves_then preserves_if preserves_case_option preserves_case_json
          preserves_throw preserves_skip preserves_step)
       (simp_all add: in_selector_def)
  then show ?thesis
    unfolding updateStats_def then_step by (simp add: preserves_def)
qed

lemma evaluating_updateStats: "isEvaluating (snd (updateStats c st an s)) = isEvaluating s"
  by (rule evaluating_preserved [OF core_updateStats])

lemma handler_sink_message:
  assumes p: "parse raw = Some m" and k: "sink_message m"
  shows "(\<not> isEvaluating s \<longrightarrow> handleWebSocketMessage parse (MessageEvent raw) s = (Normal (), s))
     \<and> (isEvaluating s \<longrightarrow>
          sink (snd (handleWebSocketMessage parse (MessageEvent raw) s)) = sink s @ [delivery_of m])"
proof -
  obtain kvs where m: "m = JObj kvs" using sink_message_object [OF k] by blast
  show ?thesis
  proof (cases "map_of kvs ''type'' = Some (JStr ''result'')")
    case True
    have eq: "handleWebSocketMessage parse (MessageEvent raw) s =
        (if isEvaluating s
         then try_catch (updateStats (map_of kvs ''count'') (map_of kvs ''stage'') (map_of kvs ''angle''))
                (\<lambda>error. console_do (Message_failed error)) s
         else (Normal (), s))"
      using p True
      by (simp add: handleWebSocketMessage_def parse_event_def message_switch_def m
            eval_do_def try_catch_def)
    have "sink (snd (try_catch (updateStats c st an) (\<lambda>error. console_do (Message_failed error)) s))
          = sink s @ [Stats c st an]" for c st an
    proof (cases "updateStats c st an s")
      case (Pair r s')
      then show ?thesis
        using sink_updateStats [of c st an s]
        by (cases r) (simp_all add: try_catch_def console_do_def step_do_def)
    qed
    then show ?thesis
      using True by (simp add: eq delivery_of_def member_def m)
  next
    case False
    then have ty: "map_of kvs ''type'' = Some (JStr ''processed_frame'')"
      using k by (simp add: sink_message_def m)
    have eq: "handleWebSocketMessage parse (MessageEvent raw) s =
        (if isEvaluating s
         then try_catch (handleProcessedFrame m) (\<lambda>error. console_do (Message_failed error)) s
         else (Normal (), s))"
      using p ty
      by (simp add: handleWebSocketMessage_def parse_event_def message_switch_def m
            eval_do_def try_catch_def)
    have "sink (snd (try_catch (handleProcessedFrame m) (\<lambda>error. console_do (Message_failed error)) s))
          = sink s @ [Frame m]"
      by (simp add: handleProcessedFrame_def m proc_defs)
    then show ?thesis
      using ty by (simp add: eq delivery_of_def member_def m)
  qed
qed

lemma onmessage_sink_message:
  assumes p: "parse raw = Some m" and k: "sink_message m"
  shows "(\<not> isEvaluating s \<longrightarrow> socket_onmessage parse raw s = (Normal (), s))
     \<and> (isEvaluating s \<longrightarrow>
          sink (snd (socket_onmessage parse raw s)) = sink s @ [delivery_of m])"
proof -
  obtain ty where ty: "get_prop (Some m) ''type'' = Normal ty" "ty \<noteq> Some (JStr ''actions_list'')"
    using k by (auto simp: sink_message_def)
  show ?thesis
    using handler_sink_message [of parse raw m s, OF p k]
    by (simp add: socket_onmessage_other [of parse raw m ty, OF p ty])
qed

section \<open>Malformed messages: helper facts\<close>

lemma fold_replicate_console:
  "(\<And>t. g x t = t\<lparr>console := console t @ [e]\<rparr>) \<Longrightarrow>
   fold g (replicate n x) s = s\<lparr>console := console s @ replicate n e\<rparr>"
proof (induction n arbitrary: s)
  case 0
  show ?case by simp
next
  case (Suc n)
  have "fold g (replicate (Suc n) x) s = fold g (replicate n x) (s\<lparr>console := console s @ [e]\<rparr>)"
    by (simp add: Suc.prems)
  also have "\<dots> = s\<lparr>console := console s @ [e] @ replicate n e\<rparr>"
    using Suc.IH [OF Suc.prems, of "s\<lparr>console := console s @ [e]\<rparr>"] by simp
  finally show ?case by simp
qed

lemma handler_unparsed:
  "parse raw = None \<Longrightarrow>
   handleWebSocketMessage parse (MessageEvent raw) s =
     (Normal (), s\<lparr>console := console s @ [Message_failed SyntaxError]\<rparr>)"
  by (simp add: handleWebSocketMessage_def parse_event_def proc_defs)

lemma fetch_handler_unparsed:
  "parse raw = None \<Longrightarrow>
   fetch_handleMessage parse (MessageEvent raw) s =
     (Normal (), s\<lparr>console := console s @ [Fetch_message_failed SyntaxError]\<rparr>)"
  by (simp add: fetch_handleMessage_def parse_event_def proc_defs)

lemma onmessage_unparsed:
  assumes "parse raw = None"
  shows "socket_onmessage parse raw s =
     (Normal (), s\<lparr>console := console s @ Message_failed SyntaxError #
                     replicate (fetchListeners s) (Fetch_message_failed SyntaxError)\<rparr>)"
proof -
  have "fold (\<lambda>callback s. snd (callback (MessageEvent raw) s))
          (replicate k (fetch_handleMessage parse)) t
        = t\<lparr>console := console t @ replicate k (Fetch_message_failed SyntaxError)\<rparr>" for k t
    by (intro fold_replicate_console) (simp add: fetch_handler_unparsed [of parse raw, OF assms])
  then show ?thesis
    by (simp only: socket_onmessage_fold handler_unparsed [of parse raw, OF assms]) simp
qed

lemma handler_unknown:
  assumes "parse raw = Some m" and "get_prop (Some m) ''type'' = Normal ty" and "\<not> known_type ty"
  shows "handleWebSocketMessage parse (MessageEvent raw) s =
     (Normal (), s\<lparr>console := console s @ [Unknown_type ty]\<rparr>)"
  using assms
  by (simp add: handleWebSocketMessage_def parse_event_def message_switch_def known_type_def
        proc_defs)

lemma onmessage_unknown:
  assumes p: "parse raw = Some m" and t: "get_prop (Some m) ''type'' = Normal ty"
    and u: "\<not> known_type ty"
  shows "socket_onmessage parse raw s = (Normal (), s\<lparr>console := console s @ [Unknown_type ty]\<rparr>)"
proof -
  have "ty \<noteq> Some (JStr ''actions_list'')"
    using u by (auto simp: known_type_def)
  then show ?thesis
    using socket_onmessage_other [of parse raw m ty s, OF p t]
      handler_unknown [of parse raw m ty s, OF p t u]
    by simp
qed

lemma onmessage_normal: "fst (socket_onmessage parse raw s) = Normal ()"
  by (simp only: socket_onmessage_fold fst_conv)

lemma core_run_messages: "session_core (run_messages parse raws s) = session_core s"
proof (induction raws arbitrary: s)
  case Nil
  show ?case by simp
next
  case (Cons raw raws)
  show ?case
    using Cons.IH [of "snd (socket_onmessage parse raw s)"]
      preservesD [OF core_socket_onmessage, of parse raw s]
    by simp
qed

section \<open>Catalogue fetch: helper facts\<close>

lemma fetchActionsRest_failed:
  "fetchActionsRest Rest_rejected s = (Normal (Some (JArr [])), s\<lparr>console := console s @ [Rest_failed]\<rparr>)
   \<and> fetchActionsRest Rest_not_ok s = (Normal (Some (JArr [])), s\<lparr>console := console s @ [Rest_failed]\<rparr>)"
  by (simp add: fetchActionsRest_def proc_defs)

lemma fetchActionsRest_resolves: "\<exists>v. fst (fetchActionsRest outcome s) = Normal v"
  by (simp add: fetchActionsRest_def try_catch_def then_do_def bind_do_def console_do_def
        step_do_def return_do_def split: prod.splits completion.splits)

lemma alerts_populate: "preserves alerts populateActionSelect"
  by (simp add: preserves_def populateActionSelect_def split: option.splits json.splits)

lemma preserves_case_outcome:
  "(\<And>d. preserves g (p d)) \<Longrightarrow> preserves g q \<Longrightarrow> preserves g r \<Longrightarrow>
   preserves g (case x of Rest_ok d \<Rightarrow> p d | Rest_not_ok \<Rightarrow> q | Rest_rejected \<Rightarrow> r)"
  by (cases x) simp_all

lemma alerts_fetchActionsRest: "alerts (snd (fetchActionsRest outcome s)) = alerts s"
proof -
  have "preserves alerts (fetchActionsRest outcome)"
    unfolding fetchActionsRest_def console_do_def
    by (intro preserves_try_catch preserves_case_outcome preserves_then preserves_eval
          preserves_step preserves_return preserves_throw preserves_pure alerts_populate)
       (simp_all add: in_selector_def)
  then show ?thesis by (rule preservesD)
qed

lemma fallback_never_alerts:
  "fst (fetchActions_fallback outcome s) = Normal ()
   \<and> alerts (snd (fetchActions_fallback outcome s)) = alerts s"
proof -
  obtain v s' where r: "fetchActionsRest outcome s = (Normal v, s')"
    using fetchActionsRest_resolves [of outcome s]
    by (cases "fetchActionsRest outcome s") auto
  then have "alerts s' = alerts s"
    using alerts_fetchActionsRest [of outcome s] by simp
  then show ?thesis
    using r by (simp add: fetchActions_fallback_def try_catch_def bind_do_def skip_do_def)
qed

section \<open>Selections that clear the selection\<close>

lemma change_throws:
  "actionId \<noteq> [] \<Longrightarrow> actions_find (actions (actionSelector s)) (Some (JStr actionId)) = Throw e \<Longrightarrow>
   handleActionChange actionId s = (Throw e, s)"
  by (simp add: handleActionChange_def proc_defs)

lemma change_selection:
  "selectedAction (actionSelector (snd (handleActionChange actionId s))) =
     (if actionId = [] then Some JNull
      else case actions_find (actions (actionSelector s)) (Some (JStr actionId)) of
             Normal found \<Rightarrow> found
           | Throw e \<Rightarrow> selectedAction (actionSelector s))"
proof (cases "actionId = []")
  case True
  define s2 where "s2 = in_selector (\<lambda>a. a\<lparr>selectedAction := Some JNull,
                          currentActionElement := Lit not_selected\<rparr>) s"
  have eq: "handleActionChange actionId s =
      then_do (ActionSelector_notify ''onActionChange'' (Some JNull)) resetStats s2"
    using True by (simp add: handleActionChange_def proc_defs s2_def)
  have "preserves (\<lambda>s. selectedAction (actionSelector s))
          (then_do (ActionSelector_notify ''onActionChange'' (Some JNull)) resetStats)"
    by (intro preserves_then preserves_ActionSelector_notify io_blind_selection selection_resetStats)
  then have "selectedAction (actionSelector (snd (handleActionChange actionId s)))
             = selectedAction (actionSelector s2)"
    unfolding eq by (rule preservesD)
  then show ?thesis using True by (simp add: s2_def in_selector_def)
next
  case False
  show ?thesis
  proof (cases "actions_find (actions (actionSelector s)) (Some (JStr actionId))")
    case (Throw e)
    then show ?thesis using False by (simp add: change_throws)
  next
    case (Normal found)
    show ?thesis
    proof (cases "truthy found")
      case True
      obtain nm where nm: "get_prop found ''name'' = Normal nm"
        using get_prop_truthy [OF True] by blast
      define s2 where "s2 = in_selector (\<lambda>a. a\<lparr>currentActionElement := ToString nm\<rparr>)
                              (in_selector (\<lambda>a. a\<lparr>selectedAction := found\<rparr>) s)"
      have eq: "handleActionChange actionId s =
          then_do (ActionSelector_notify ''onActionChange'' found) resetStats s2"
        using False Normal True nm by (simp add: handleActionChange_def proc_defs s2_def)
      have "preserves (\<lambda>s. selectedAction (actionSelector s))
              (then_do (ActionSelector_notify ''onActionChange'' found) resetStats)"
        by (intro preserves_then preserves_ActionSelector_notify io_blind_selection selection_resetStats)
      then have "selectedAction (actionSelector (snd (handleActionChange actionId s)))
                 = selectedAction (actionSelector s2)"
        unfolding eq by (rule preservesD)
      then show ?thesis using False Normal by (simp add: s2_def in_selector_def)
    next
      case f: False
      have "handleActionChange actionId s =
          resetStats (in_selector (\<lambda>a. a\<lparr>selectedAction := found\<rparr>) s)"
        using False Normal f by (simp add: handleActionChange_def proc_defs)
      then show ?thesis
        using False Normal by (simp add: resetStats_def step_do_def in_selector_def)
    qed
  qed
qed

lemma deselects_clears:
  "deselects (actions (actionSelector s)) actionId \<Longrightarrow>
   \<not> truthy (selectedAction (actionSelector (snd (handleActionChange actionId s))))"
  by (auto simp: change_selection deselects_def split: completion.splits)

lemma guarded_step:
  assumes inv: "session_inv s"
    and g: "\<And>v. i = SelectExercise v \<Longrightarrow>
              \<not> (isEvaluating s \<and> deselects (actions (actionSelector s)) v)"
  shows "session_inv (intent_step i s)"
proof (cases i)
  case (SelectExercise v)
  show ?thesis
  proof (cases "isEvaluating s")
    case False
    then show ?thesis
      using SelectExercise change_frame [of v s] by (simp add: session_inv_def)
  next
    case True
    then have nd: "\<not> deselects (actions (actionSelector s)) v"
      using g [OF SelectExercise] by simp
    then have "truthy (selectedAction (actionSelector (snd (handleActionChange v s))))"
      using inv True
      by (auto simp: change_selection deselects_def session_inv_def split: completion.splits)
    then show ?thesis
      using SelectExercise inv True change_frame [of v s] by (simp add: session_inv_def)
  qed
next
  case Start
  then show ?thesis
    using inv start_frame [of s] by (auto simp: session_inv_def)
next
  case Stop
  then show ?thesis
    using stop_frame [of s] by (simp add: session_inv_def)
qed

lemma guarded_run:
  "session_inv s \<Longrightarrow> selections_guarded is s \<Longrightarrow> session_inv (run_intents is s)"
proof (induction "is" s rule: selections_guarded.induct)
  case (1 s)
  then show ?case by simp
next
  case (2 v "is" s)
  have "session_inv (intent_step (SelectExercise v) s)"
    by (rule guarded_step [OF "2.prems"(1)]) (use "2.prems"(2) in simp)
  then show ?case using "2.IH" "2.prems"(2) by simp
next
  case (3 "is" s)
  have "session_inv (intent_step Start s)"
    by (rule guarded_step [OF "3.prems"(1)]) simp
  then show ?case using "3.IH" "3.prems"(2) by simp
next
  case (4 "is" s)
  have "session_inv (intent_step Stop s)"
    by (rule guarded_step [OF "4.prems"(1)]) simp
  then show ?case using "4.IH" "4.prems"(2) by simp
qed

lemma resolving_guarded:
  "(\<And>v. SelectExercise v \<in> set is \<Longrightarrow> resolves (actions (actionSelector s)) v) \<Longrightarrow>
   selections_guarded is s"
proof (induction "is" s rule: selections_guarded.induct)
  case (1 s)
  show ?case by simp
next
  case (2 v "is" s)
  have "resolves (actions (actionSelector s)) v" using "2.prems" by simp
  then have "\<not> deselects (actions (actionSelector s)) v"
    by (auto simp: resolves_def deselects_def split: completion.splits)
  moreover have "selections_guarded is (intent_step (SelectExercise v) s)"
    by (rule "2.IH") (use "2.prems" in \<open>simp add: change_frame\<close>)
  ultimately show ?case by simp
next
  case (3 "is" s)
  show ?case using "3.IH" "3.prems" start_frame [of s] by simp
next
  case (4 "is" s)
  show ?case using "4.IH" "4.prems" stop_frame [of s] by simp
qed

lemma example_deselect_idle: "snd (handleActionChange [] example_app) = example_app"
  by (simp add: handleActionChange_def proc_defs notify_selector_example listener_null
        resetStats_def in_selector_def example_app_def)

lemma example_everyday_run:
  "run_intents [SelectExercise [], SelectExercise ''a'', Start] example_app = example_evaluating"
  by (simp add: example_deselect_idle example_evaluating_def)

section \<open>The result sink: helper facts\<close>

lemma io_blind_view: "io_blind sink_view"
  by (simp add: io_blind_def sink_view_def stats_display_def)

lemma preserves_populate: "preserves g populateActionSelect"
  by (simp add: preserves_def populateActionSelect_def split: option.splits json.splits)

lemma view_updateActions: "preserves sink_view (updateActions acts)"
  unfolding updateActions_def
  by (intro preserves_then preserves_if preserves_bind preserves_eval preserves_skip
        preserves_pure preserves_populate preserves_step
        preserves_ActionSelector_notify [OF io_blind_view])
     (simp_all add: sink_view_def stats_display_def in_selector_def)

lemma view_fetch_handleMessage: "preserves sink_view (fetch_handleMessage parse ev)"
  unfolding fetch_handleMessage_def
  by (intro preserves_try_catch preserves_then preserves_if preserves_eval preserves_skip
        preserves_populate preserves_step preserves_console [OF io_blind_view])
     (simp_all add: sink_view_def stats_display_def in_selector_def resolve_fetch_def)

lemma view_onmessage:
  "sink_view (snd (socket_onmessage parse raw s))
   = sink_view (snd (handleWebSocketMessage parse (MessageEvent raw) s))"
proof -
  have "sink_view (fold (\<lambda>callback s. snd (callback (MessageEvent raw) s))
          (replicate k (fetch_handleMessage parse)) t) = sink_view t" for k t
    by (induction k arbitrary: t)
       (simp_all add: preservesD [OF view_fetch_handleMessage])
  then show ?thesis by (simp only: socket_onmessage_fold snd_conv)
qed

lemma view_try_catch_console:
  "sink_view (snd (try_catch p (\<lambda>error. console_do (k error)) s)) = sink_view (snd (p s))"
proof (cases "p s")
  case (Pair r s')
  then show ?thesis
    by (cases r) (simp_all add: try_catch_def console_do_def step_do_def sink_view_def stats_display_def)
qed

lemma view_switch_other:
  "ty \<noteq> Some (JStr ''processed_frame'') \<Longrightarrow> ty \<noteq> Some (JStr ''result'') \<Longrightarrow>
   preserves sink_view (message_switch message ty)"
  unfolding message_switch_def
  by (simp only: if_False)
     (intro preserves_if preserves_eval preserves_then preserves_cond preserves_skip
        preserves_pure preserves_throw view_updateActions preserves_console [OF io_blind_view])

lemma handler_view_dropped:
  "\<not> isEvaluating s \<Longrightarrow>
   sink_view (snd (handleWebSocketMessage parse (MessageEvent raw) s)) = sink_view s"
proof -
  assume ne: "\<not> isEvaluating s"
  show ?thesis
  proof (cases "parse_event parse (MessageEvent raw)")
    case (Throw e)
    then show ?thesis
      by (simp add: handleWebSocketMessage_def view_try_catch_console eval_do_def)
  next
    case (Normal m)
    show ?thesis
    proof (cases "get_prop (Some m) ''type''")
      case (Throw e)
      then show ?thesis
        using Normal by (simp add: handleWebSocketMessage_def view_try_catch_console eval_do_def)
    next
      case ty: (Normal ty)
      have "sink_view (snd (message_switch m ty s)) = sink_view s"
      proof (cases "ty = Some (JStr ''processed_frame'') \<or> ty = Some (JStr ''result'')")
        case True
        then show ?thesis using ne by (auto simp: message_switch_def)
      next
        case False
        then show ?thesis using preservesD [OF view_switch_other, of ty m s] by simp
      qed
      then show ?thesis
        using Normal ty by (simp add: handleWebSocketMessage_def view_try_catch_console eval_do_def)
    qed
  qed
qed

lemma handler_view_other:
  assumes "case parse raw of
             Some m \<Rightarrow> member m ''type'' \<noteq> Some (JStr ''processed_frame'')
                       \<and> member m ''type'' \<noteq> Some (JStr ''result'')
           | None \<Rightarrow> True"
  shows "sink_view (snd (handleWebSocketMessage parse (MessageEvent raw) s)) = sink_view s"
proof (cases "parse_event parse (MessageEvent raw)")
  case (Throw e)
  then show ?thesis
    by (simp add: handleWebSocketMessage_def view_try_catch_console eval_do_def)
next
  case (Normal m)
  then have p: "parse raw = Some m"
    by (simp add: parse_event_def split: option.splits)
  show ?thesis
  proof (cases "get_prop (Some m) ''type''")
    case (Throw e)
    then show ?thesis
      using Normal by (simp add: handleWebSocketMessage_def view_try_catch_console eval_do_def)
  next
    case ty: (Normal ty)
    then have "ty \<noteq> Some (JStr ''processed_frame'')" "ty \<noteq> Some (JStr ''result'')"
      using assms p by (simp_all add: member_def)
    then have "sink_view (snd (message_switch m ty s)) = sink_view s"
      using preservesD [OF view_switch_other, of ty m s] by simp
    then show ?thesis
      using Normal ty by (simp add: handleWebSocketMessage_def view_try_catch_console eval_do_def)
  qed
qed


lemma member_object: "member m k = Some v \<Longrightarrow> \<exists>kvs. m = JObj kvs \<and> map_of kvs k = Some v"
  by (cases m) (simp_all add: member_def)

lemma sink_message_member:
  "sink_message m \<longleftrightarrow>
     member m ''type'' = Some (JStr ''result'') \<or> member m ''type'' = Some (JStr ''processed_frame'')"
  by (cases m) (auto simp: sink_message_def member_def)

lemma handler_view_result:
  assumes p: "parse raw = Some m" and t: "member m ''type'' = Some (JStr ''result'')"
    and e: "isEvaluating s"
  shows "sink_view (snd (handleWebSocketMessage parse (MessageEvent raw) s)) =
         sink_view (snd (updateStats (member m ''count'') (member m ''stage'') (member m ''angle'') s))"
proof -
  obtain kvs where m: "m = JObj kvs" and ty: "map_of kvs ''type'' = Some (JStr ''result'')"
    using member_object [OF t] by blast
  have "handleWebSocketMessage parse (MessageEvent raw) s =
        try_catch (updateStats (map_of kvs ''count'') (map_of kvs ''stage'') (map_of kvs ''angle''))
          (\<lambda>error. console_do (Message_failed error)) s"
    using p ty e
    by (simp add: handleWebSocketMessage_def parse_event_def message_switch_def m
          eval_do_def try_catch_def)
  then show ?thesis
    by (simp add: view_try_catch_console member_def m)
qed

lemma handler_view_frame:
  assumes p: "parse raw = Some m" and t: "member m ''type'' = Some (JStr ''processed_frame'')"
    and e: "isEvaluating s"
  shows "sink_view (snd (handleWebSocketMessage parse (MessageEvent raw) s)) =
         (sink s @ [Frame m],
          imageSources s @ (if truthy (member m ''data'') then [member m ''data''] else []),
          stats_display s)"
proof -
  obtain kvs where m: "m = JObj kvs" and ty: "map_of kvs ''type'' = Some (JStr ''processed_frame'')"
    using member_object [OF t] by blast
  have "handleWebSocketMessage parse (MessageEvent raw) s =
        try_catch (handleProcessedFrame m) (\<lambda>error. console_do (Message_failed error)) s"
    using p ty e
    by (simp add: handleWebSocketMessage_def parse_event_def message_switch_def m
          eval_do_def try_catch_def)
  then show ?thesis
    by (simp add: view_try_catch_console handleProcessedFrame_def m member_def proc_defs
          sink_view_def stats_display_def)
qed

lemma images_updateStats: "imageSources (snd (updateStats c st an s)) = imageSources s"
proof -
  have "preserves imageSources (updateStats c st an)"
    unfolding updateStats_def
    by (intro preserves_then preserves_if preserves_case_option preserves_case_json
          preserves_throw preserves_skip preserves_step)
       (simp_all add: in_selector_def)
  then show ?thesis by (rule preservesD)
qed

lemma updateStats_typed:
  "updateStats (Some c) (Some (JStr st)) (Some (JNum a)) s =
     (Normal (),
      s\<lparr>sink := sink s @ [Stats (Some c) (Some (JStr st)) (Some (JNum a))],
        actionSelector := (actionSelector s)\<lparr>countElement := ToString (Some c),
          stageElement := UpperCase st, stageColor := stage_colour st, angleElement := Fixed1 a\<rparr>\<rparr>)"
  by (simp add: updateStats_def proc_defs in_selector_def)

lemma onmessage_sink:
  "sink (snd (socket_onmessage parse raw s)) =
     sink s @ (if isEvaluating s then deliveries parse [raw] else [])"
proof -
  have v: "sink (snd (socket_onmessage parse raw s))
           = fst (sink_view (snd (handleWebSocketMessage parse (MessageEvent raw) s)))"
    using view_onmessage [of parse raw s] by (simp add: sink_view_def)
  show ?thesis
  proof (cases "isEvaluating s")
    case False
    then show ?thesis
      using handler_view_dropped [of s parse raw] by (simp add: v sink_view_def)
  next
    case True
    show ?thesis
    proof (cases "parse raw")
      case None
      then show ?thesis
        using handler_view_other [of parse raw s] True by (simp add: v sink_view_def)
    next
      case (Some m)
      consider (result) "member m ''type'' = Some (JStr ''result'')"
        | (frame) "member m ''type'' = Some (JStr ''processed_frame'')"
        | (other) "member m ''type'' \<noteq> Some (JStr ''result'')"
                  "member m ''type'' \<noteq> Some (JStr ''processed_frame'')"
        by blast
      then show ?thesis
      proof cases
        case result
        then show ?thesis
          using True Some handler_view_result [of parse raw m s]
          by (simp add: v sink_view_def sink_updateStats sink_message_member delivery_of_def)
      next
        case frame
        then show ?thesis
          using True Some handler_view_frame [of parse raw m s]
          by (simp add: v sink_message_member delivery_of_def)
      next
        case other
        then show ?thesis
          using True Some handler_view_other [of parse raw s]
          by (simp add: v sink_view_def sink_message_member)
      qed
    qed
  qed
qed

lemma onmessage_images:
  "imageSources (snd (socket_onmessage parse raw s)) =
     imageSources s @ (if isEvaluating s then frame_sources parse [raw] else [])"
proof -
  have v: "imageSources (snd (socket_onmessage parse raw s))
           = fst (snd (sink_view (snd (handleWebSocketMessage parse (MessageEvent raw) s))))"
    using view_onmessage [of parse raw s] by (simp add: sink_view_def)
  show ?thesis
  proof (cases "isEvaluating s")
    case False
    then show ?thesis
      using handler_view_dropped [of s parse raw] by (simp add: v sink_view_def)
  next
    case True
    show ?thesis
    proof (cases "parse raw")
      case None
      then show ?thesis
        using handler_view_other [of parse raw s] True by (simp add: v sink_view_def)
    next
      case (Some m)
      consider (result) "member m ''type'' = Some (JStr ''result'')"
        | (frame) "member m ''type'' = Some (JStr ''processed_frame'')"
        | (other) "member m ''type'' \<noteq> Some (JStr ''result'')"
                  "member m ''type'' \<noteq> Some (JStr ''processed_frame'')"
        by blast
      then show ?thesis
      proof cases
        case result
        then show ?thesis
          using True Some handler_view_result [of parse raw m s]
          by (simp add: v sink_view_def images_updateStats)
      next
        case frame
        then show ?thesis
          using True Some handler_view_frame [of parse raw m s]
          by (simp add: v)
      next
        case other
        then show ?thesis
          using True Some handler_view_other [of parse raw s]
          by (simp add: v sink_view_def)
      qed
    qed
  qed
qed

lemma onmessage_display_result:
  assumes "isEvaluating s" and "parse raw = Some m"
    and "member m ''type'' = Some (JStr ''result'')"
    and "member m ''count'' = Some c" and "member m ''stage'' = Some (JStr st)"
    and "member m ''angle'' = Some (JNum a)"
  shows "stats_display (snd (socket_onmessage parse raw s)) =
           (ToString (Some c), UpperCase st, stage_colour st, Fixed1 a)"
proof -
  have "stats_display (snd (socket_onmessage parse raw s))
        = snd (snd (sink_view (snd (handleWebSocketMessage parse (MessageEvent raw) s))))"
    using view_onmessage [of parse raw s] by (simp add: sink_view_def)
  then show ?thesis
    using assms handler_view_result [of parse raw m s]
    by (simp add: updateStats_typed sink_view_def stats_display_def)
qed

lemma onmessage_display_kept:
  assumes "\<not> isEvaluating s
           \<or> (case parse raw of Some m \<Rightarrow> member m ''type'' \<noteq> Some (JStr ''result'') | None \<Rightarrow> True)"
  shows "stats_display (snd (socket_onmessage parse raw s)) = stats_display s"
proof -
  have v: "stats_display (snd (socket_onmessage parse raw s))
        = snd (snd (sink_view (snd (handleWebSocketMessage parse (MessageEvent raw) s))))"
    using view_onmessage [of parse raw s] by (simp add: sink_view_def)
  show ?thesis
  proof (cases "isEvaluating s")
    case False
    then show ?thesis
      using handler_view_dropped [of s parse raw] by (simp add: v sink_view_def)
  next
    case True
    then have nr: "case parse raw of Some m \<Rightarrow> member m ''type'' \<noteq> Some (JStr ''result'') | None \<Rightarrow> True"
      using assms by simp
    show ?thesis
    proof (cases "parse raw")
      case None
      then show ?thesis
        using handler_view_other [of parse raw s] by (simp add: v sink_view_def)
    next
      case (Some m)
      show ?thesis
      proof (cases "member m ''type'' = Some (JStr ''processed_frame'')")
        case frame: True
        then show ?thesis
          using True Some handler_view_frame [of parse raw m s] by (simp add: v)
      next
        case False
        then show ?thesis
          using nr Some handler_view_other [of parse raw s] by (simp add: v sink_view_def)
      qed
    qed
  qed
qed

lemma evaluating_onmessage: "isEvaluating (snd (socket_onmessage parse raw s)) = isEvaluating s"
  by (rule evaluating_preserved [OF core_socket_onmessage])

lemma evaluating_run: "isEvaluating (run_messages parse raws s) = isEvaluating s"
  by (induction raws arbitrary: s) (simp_all add: evaluating_onmessage)

lemma run_sink:
  "sink (run_messages parse raws s) = sink s @ (if isEvaluating s then deliveries parse raws else [])"
proof (induction raws arbitrary: s)
  case Nil
  show ?case by simp
next
  case (Cons raw raws)
  show ?case
    using Cons.IH [of "snd (socket_onmessage parse raw s)"] onmessage_sink [of parse raw s]
    by (simp add: evaluating_onmessage)
qed

lemma run_images:
  "imageSources (run_messages parse raws s) =
     imageSources s @ (if isEvaluating s then frame_sources parse raws else [])"
proof (induction raws arbitrary: s)
  case Nil
  show ?case by simp
next
  case (Cons raw raws)
  show ?case
    using Cons.IH [of "snd (socket_onmessage parse raw s)"] onmessage_images [of parse raw s]
    by (simp add: evaluating_onmessage)
qed

lemma run_display_dropped:
  "\<not> isEvaluating s \<Longrightarrow> stats_display (run_messages parse raws s) = stats_display s"
proof (induction raws arbitrary: s)
  case Nil
  show ?case by simp
next
  case (Cons raw raws)
  have "\<not> isEvaluating (snd (socket_onmessage parse raw s))"
    using Cons.prems by (simp add: evaluating_onmessage)
  then show ?case
    using Cons.IH [of "snd (socket_onmessage parse raw s)"] Cons.prems
      onmessage_display_kept [of s parse raw]
    by simp
qed

lemma run_messages_append:
  "run_messages parse (raws @ [raw]) s = snd (socket_onmessage parse raw (run_messages parse raws s))"
  by (induction raws arbitrary: s) simp_all

lemma run_dropped:
  "sink_texts parse raws \<Longrightarrow> \<not> isEvaluating s \<Longrightarrow> run_messages parse raws s = s"
proof (induction raws arbitrary: s)
  case Nil
  show ?case by simp
next
  case (Cons raw raws)
  from Cons.prems obtain m where p: "parse raw = Some m" and k: "sink_message m"
    and rest: "sink_texts parse raws"
    by (auto split: option.splits)
  have "socket_onmessage parse raw s = (Normal (), s)"
    using onmessage_sink_message [of parse raw m s, OF p k] Cons.prems(2) by simp
  then show ?case using Cons.IH [OF rest Cons.prems(2)] by simp
qed

lemma stop_stats_display:
  "transport_consistent s \<Longrightarrow>
   stats_display (snd (stopEvaluation s)) = (Lit ''0'', Lit ''-'', ''#2196F3'', Lit (''0.0'' @ degree_sign))"
  by (auto simp: stopEvaluation_eq transport_consistent_def resetStats_def step_do_def
        in_selector_def stats_display_def split: option.splits)

lemma stop_sink:
  "sink (snd (stopEvaluation s)) = sink s \<and> imageSources (snd (stopEvaluation s)) = imageSources s"
  by (simp add: stopEvaluation_eq resetStats_def step_do_def in_selector_def split: option.splits)

lemma example_mixed_run:
  "deliveries example_parse [pose_text, result_text, ''{bad'', frame_text] =
     [Stats (Some (JNum 3)) (Some (JStr ''up'')) (Some (JNum 142.7)), Frame frame_message]
   \<and> frame_sources example_parse [pose_text, result_text, ''{bad'', frame_text] =
     [Some (JStr ''/9j/4AAQ'')]"
  by (simp add: example_parse_def result_text_def frame_text_def pose_text_def sink_message_def
        delivery_of_def member_def result_message_def frame_message_def)

lemma example_result_members:
  "example_parse result_text = Some result_message
   \<and> member result_message ''type'' = Some (JStr ''result'')
   \<and> member result_message ''count'' = Some (JNum 3)
   \<and> member result_message ''stage'' = Some (JStr ''up'')
   \<and> member result_message ''angle'' = Some (JNum 142.7)"
  by (simp add: example_parse_def member_def result_message_def)

section \<open>Listener dispatch\<close>

text \<open>
  C10. For every listener table, every event name that the code dispatches, every event and
  every state, \<open>_notifyCallbacks\<close> completes normally, and the state it leaves is the one reached by calling every listener
  registered under the name, in registration order, each on the state the previous one left
  (whether that one returned or threw), with one console line for each listener that threw.
  So a throwing listener neither stops the later ones nor reaches the dispatcher's caller.
\<close>

theorem notifyCallbacks_isolates_listeners:
  assumes "eventName \<in> set dispatched_events"
  shows "notifyCallbacks callbacks eventName d s =
     (Normal (),
      fold (\<lambda>callback s. case callback d s of
              (Normal v, s') \<Rightarrow> s'
            | (Throw e, s') \<Rightarrow> s'\<lparr>console := console s' @ [Callback_failed eventName e]\<rparr>)
        (case callbacks eventName of None \<Rightarrow> [] | Some cbs \<Rightarrow> cbs) s)"
  by (simp add: notifyCallbacks_def forEach_try_catch skip_do_def split: option.splits)

text \<open>
  An instance: the first of two listeners throws after raising an alert, the second one
  still runs, and the dispatch returns normally with the failure on the console.
\<close>

theorem notifyCallbacks_isolates_listeners_witness:
  "notifyCallbacks
     [''onClose'' \<mapsto> [\<lambda>d. then_do (alert_do Stop_failed) (throw_do TypeError),
                       \<lambda>d. alert_do Start_failed]] ''onClose'' Event example_app =
   (Normal (), example_app\<lparr>alerts := [Stop_failed, Start_failed],
                 console := [Callback_failed ''onClose'' TypeError]\<rparr>)"
  using notifyCallbacks_isolates_listeners
    [of "''onClose''" "[''onClose'' \<mapsto> [\<lambda>d. then_do (alert_do Stop_failed) (throw_do TypeError),
                       \<lambda>d. alert_do Start_failed]]" Event example_app]
  by (simp add: proc_defs example_app_def dispatched_events_def)

section \<open>Transport\<close>

text \<open>
  C8. In every state the application can reach from a freshly constructed client, and for
  every message, \<open>send\<close> completes normally (it does not throw): when the ready state of
  the socket is \<open>OPEN\<close> it returns \<open>true\<close> and hands the message to the socket, and in
  every other case it returns \<open>false\<close>, transmits nothing and only writes to the console.
\<close>

theorem send_accepts_exactly_when_open:
  "let s = app_run parse inputs (s0\<lparr>wsClient := WebSocketClient\<rparr>) in
   send m s =
     (if socket (wsClient s) = Some OPEN
      then (Normal True, s\<lparr>wsClient := (wsClient s)\<lparr>transmitted := transmitted (wsClient s) @ [m]\<rparr>\<rparr>)
      else (Normal False, s\<lparr>console := console s @ [Send_refused]\<rparr>))"
  unfolding Let_def
  using send_consistent [OF consistent_run [OF consistent_fresh]]
  by (simp add: in_ws_def)

section \<open>Starting and stopping\<close>

text \<open>
  C3. Whenever \<open>startEvaluation\<close> is called with no exercise selected or with the socket
  not open, it returns normally and the state is the one before the call with a single
  alert added (the alert naming the missing precondition): nothing is sent, and the
  selection and the evaluating flag are as they were.
\<close>

theorem start_rejected_without_preconditions:
  assumes "\<not> truthy (selectedAction (actionSelector s)) \<or> \<not> isConnected s"
  shows "startEvaluation s =
     (Normal (), s\<lparr>alerts := alerts s @
        [if \<not> truthy (selectedAction (actionSelector s)) then Select_action_first
         else Connection_not_open]\<rparr>)"
  using assms by (rule startEvaluation_rejected)

text \<open>
  Instances: nothing selected on an open socket, and (the specification's scenario) an
  exercise selected on a closed socket.
\<close>

theorem start_rejected_without_preconditions_witness:
  "startEvaluation example_app = (Normal (), example_app\<lparr>alerts := [Select_action_first]\<rparr>)
   \<and> startEvaluation (closed_socket example_selected) =
       (Normal (), (closed_socket example_selected)\<lparr>alerts := [Connection_not_open]\<rparr>)"
  using start_rejected_without_preconditions [of example_app]
    start_rejected_without_preconditions [of "closed_socket example_selected"]
  by (simp add: example_selected_eq closed_socket_def example_app_def isConnected_def squat_def)

text \<open>
  C4. In every state whose \<open>connected\<close> flag agrees with the socket, \<open>stopEvaluation\<close>
  returns normally with the evaluating flag cleared and the selection kept, hands
  \<open>stop_evaluation\<close> to the transport (which transmits it exactly when the socket is open),
  and leaves the displayed count, stage and angle at their reset values whether or not the
  transport accepted the command.
\<close>

theorem stop_always_resets_statistics:
  assumes "transport_consistent s"
  shows "\<exists>s'. stopEvaluation s = (Normal (), s')
     \<and> \<not> isEvaluating s'
     \<and> selectedAction (actionSelector s') = selectedAction (actionSelector s)
     \<and> countElement (actionSelector s') = Lit ''0''
     \<and> stageElement (actionSelector s') = Lit ''-''
     \<and> angleElement (actionSelector s') = Lit (''0.0'' @ degree_sign)
     \<and> transmitted (wsClient s') =
         transmitted (wsClient s) @ (if socket (wsClient s) = Some OPEN then [Stop_evaluation] else [])
     \<and> alerts s' = alerts s"
  using assms
  by (auto simp: stopEvaluation_eq transport_consistent_def resetStats_def step_do_def
        in_selector_def split: option.splits)

text \<open>Instances: stopping on an open socket, and stopping after the socket has closed.\<close>

theorem stop_always_resets_statistics_witness:
  "(\<exists>s'. stopEvaluation example_evaluating = (Normal (), s')
      \<and> \<not> isEvaluating s'
      \<and> selectedAction (actionSelector s') = Some squat
      \<and> countElement (actionSelector s') = Lit ''0''
      \<and> stageElement (actionSelector s') = Lit ''-''
      \<and> angleElement (actionSelector s') = Lit (''0.0'' @ degree_sign)
      \<and> transmitted (wsClient s') =
          [Action_select (Some (JStr ''a'')), Start_evaluation (Some (JStr ''a'')), Stop_evaluation]
      \<and> alerts s' = [])
   \<and> (\<exists>s'. stopEvaluation (closed_socket example_evaluating) = (Normal (), s')
      \<and> \<not> isEvaluating s'
      \<and> countElement (actionSelector s') = Lit ''0''
      \<and> stageElement (actionSelector s') = Lit ''-''
      \<and> angleElement (actionSelector s') = Lit (''0.0'' @ degree_sign)
      \<and> transmitted (wsClient s') =
          [Action_select (Some (JStr ''a'')), Start_evaluation (Some (JStr ''a''))])"
proof -
  have c1: "transport_consistent example_evaluating"
    by (simp add: example_evaluating_eq transport_consistent_def example_app_def)
  have c2: "transport_consistent (closed_socket example_evaluating)"
    by (simp add: closed_socket_def transport_consistent_def)
  show ?thesis
    using stop_always_resets_statistics [OF c1] stop_always_resets_statistics [OF c2]
    by (auto simp: example_evaluating_eq closed_socket_def example_app_def)
qed

section \<open>Losing the connection\<close>

text \<open>
  C2, as stated, fails: with an evaluation running, neither the close handler nor the error
  handler clears the evaluating flag or raises an alert.
\<close>

theorem connection_loss_forces_ready_counterexample:
  "isEvaluating example_evaluating
   \<and> isEvaluating (snd (socket_onclose no_parse example_evaluating))
   \<and> alerts (snd (socket_onclose no_parse example_evaluating)) = []
   \<and> socket (wsClient (snd (socket_onerror no_parse example_evaluating))) = Some CLOSED
   \<and> isEvaluating (snd (socket_onerror no_parse example_evaluating))
   \<and> alerts (snd (socket_onerror no_parse example_evaluating)) = []"
  by (simp add: socket_onclose_eq socket_onerror_eq example_evaluating_eq example_app_def)

text \<open>
  C2, amended. When the socket closes, the close handler leaves the state as it was except
  for the transport: the ready state is \<open>CLOSED\<close> and \<open>connected\<close> is cleared. When the
  socket errors, the ready state is \<open>CLOSED\<close> and the error handler only writes two console
  lines (and, while \<open>connect\<close> is still pending, rejects it, which raises the
  initialisation alert of \<open>init\<close>). In both cases the evaluating flag, the selection and the
  transmitted messages are as they were, so a running evaluation stays marked as running
  and nothing tells the user that the connection was lost. Evaluation is never started
  automatically: no input other than the user's start turns the evaluating flag on.
\<close>

theorem connection_loss_leaves_session:
  "socket_onclose parse s =
     (Normal (), s\<lparr>wsClient := (wsClient s)\<lparr>socket := Some CLOSED, connected := False\<rparr>\<rparr>)
   \<and> socket_onerror parse s =
     (Normal (),
      if connectPromise s = Pending
      then s\<lparr>wsClient := (wsClient s)\<lparr>socket := Some CLOSED\<rparr>,
             console := console s @ [Socket_failed, Socket_failed], connectPromise := Rejected,
             alerts := alerts s @ [Init_failed]\<rparr>
      else s\<lparr>wsClient := (wsClient s)\<lparr>socket := Some CLOSED\<rparr>,
             console := console s @ [Socket_failed, Socket_failed]\<rparr>)
   \<and> (\<not> isEvaluating s \<and> i \<noteq> Intent Start \<longrightarrow> \<not> isEvaluating (app_step parse i s))"
  using evaluating_step [of s i parse] by (simp add: socket_onclose_eq socket_onerror_eq)

text \<open>
  Instances: the socket closes during an evaluation; the socket errors during an
  evaluation; and the socket closes on a session that is not evaluating, which stays so.
\<close>

theorem connection_loss_leaves_session_witness:
  "socket_onclose no_parse example_evaluating = (Normal (), closed_socket example_evaluating)
   \<and> isEvaluating (closed_socket example_evaluating)
   \<and> selectedAction (actionSelector (closed_socket example_evaluating)) = Some squat
   \<and> alerts (closed_socket example_evaluating) = []
   \<and> socket_onerror no_parse example_evaluating =
       (Normal (), example_evaluating\<lparr>wsClient := (wsClient example_evaluating)\<lparr>socket := Some CLOSED\<rparr>,
                     console := [Socket_failed, Socket_failed]\<rparr>)
   \<and> app_step no_parse Socket_close example_selected = closed_socket example_selected
   \<and> \<not> isEvaluating (app_step no_parse Socket_close example_selected)"
proof -
  have "\<not> isEvaluating example_selected \<and> Socket_close \<noteq> Intent Start"
    by (simp add: example_selected_eq example_app_def)
  then show ?thesis
    using connection_loss_leaves_session [of no_parse example_evaluating Socket_close]
      connection_loss_leaves_session [of no_parse example_selected Socket_close]
    by (simp add: closed_socket_def example_evaluating_eq example_selected_eq example_app_def)
qed

section \<open>The session invariant\<close>

text \<open>
  C1, as stated, fails: select the squat, start, then pick the empty option of the
  \<open>select\<close> element. \<open>_handleActionChange\<close> sets the selection to \<open>null\<close> and leaves the
  evaluating flag set.
\<close>

theorem session_invariant_counterexample:
  "session_inv example_app
   \<and> isEvaluating (run_intents [SelectExercise ''a'', Start, SelectExercise ''''] example_app)
   \<and> selectedAction (actionSelector
        (run_intents [SelectExercise ''a'', Start, SelectExercise ''''] example_app)) = Some JNull
   \<and> \<not> session_inv (run_intents [SelectExercise ''a'', Start, SelectExercise ''''] example_app)"
proof -
  have "run_intents [SelectExercise ''a'', Start, SelectExercise ''''] example_app
        = snd (handleActionChange '''' example_evaluating)"
    by (simp add: example_evaluating_def)
  moreover have "isEvaluating (snd (handleActionChange '''' example_evaluating))"
    by (simp add: change_frame example_evaluating_eq)
  moreover have "selectedAction (actionSelector (snd (handleActionChange '''' example_evaluating)))
        = Some JNull"
    by (simp add: handleActionChange_def proc_defs notify_selector_example
          onActionChange_listener_def resetStats_def in_selector_def)
  moreover have "session_inv example_app"
    by (simp add: session_inv_def example_app_def)
  ultimately show ?thesis by (simp add: session_inv_def)
qed

text \<open>
  C1, amended. From a state that satisfies the session invariant, and for every sequence of
  \<open>selectExercise\<close>, \<open>start\<close> and \<open>stop\<close> calls:
  \<^item> the evaluating flag is set afterwards only while the socket is open;
  \<^item> the whole invariant holds afterwards (the flag is set only while an exercise is
    selected and the socket is open) unless some \<open>selectExercise\<close> of the sequence, made
    while an evaluation was running, picked the empty option or an id that the cached
    catalogue does not hold; in particular it holds when every \<open>selectExercise\<close> names an
    id that the catalogue resolves;
  \<^item> picking the empty option, or an id the catalogue does not hold, always leaves no
    exercise selected (the empty option sets the selection to \<open>null\<close>) and leaves the
    evaluating flag as it was, so that such a selection made during an evaluation breaks
    the invariant.
\<close>

theorem session_invariant_unless_deselected_while_evaluating:
  assumes "session_inv s"
  shows "(isEvaluating (run_intents is s) \<longrightarrow> isConnected (run_intents is s))
     \<and> (selections_guarded is s \<longrightarrow> session_inv (run_intents is s))
     \<and> ((\<forall>v. SelectExercise v \<in> set is \<longrightarrow> resolves (actions (actionSelector s)) v)
          \<longrightarrow> selections_guarded is s)
     \<and> (deselects (actions (actionSelector s)) actionId \<longrightarrow>
          \<not> truthy (selectedAction (actionSelector (intent_step (SelectExercise actionId) s)))
          \<and> isEvaluating (intent_step (SelectExercise actionId) s) = isEvaluating s)
     \<and> selectedAction (actionSelector (intent_step (SelectExercise []) s)) = Some JNull
     \<and> (isEvaluating s \<and> deselects (actions (actionSelector s)) actionId \<longrightarrow>
          \<not> session_inv (intent_step (SelectExercise actionId) s))"
proof -
  have 1: "isEvaluating (run_intents is s) \<longrightarrow> isConnected (run_intents is s)"
    by (rule connected_inv_run) (use assms in \<open>simp add: session_inv_def\<close>)
  have 2: "selections_guarded is s \<longrightarrow> session_inv (run_intents is s)"
    using guarded_run [OF assms] by blast
  have 3: "(\<forall>v. SelectExercise v \<in> set is \<longrightarrow> resolves (actions (actionSelector s)) v)
          \<longrightarrow> selections_guarded is s"
    using resolving_guarded [of "is" s] by blast
  have 4: "deselects (actions (actionSelector s)) actionId \<longrightarrow>
          \<not> truthy (selectedAction (actionSelector (intent_step (SelectExercise actionId) s)))
          \<and> isEvaluating (intent_step (SelectExercise actionId) s) = isEvaluating s"
    using deselects_clears [of s actionId] change_frame [of actionId s] by simp
  have 5: "selectedAction (actionSelector (intent_step (SelectExercise []) s)) = Some JNull"
    by (simp add: change_selection)
  have 6: "isEvaluating s \<and> deselects (actions (actionSelector s)) actionId \<longrightarrow>
          \<not> session_inv (intent_step (SelectExercise actionId) s)"
    using 4 by (simp add: session_inv_def)
  show ?thesis using 1 2 3 4 5 6 by blast
qed

text \<open>
  Instances: picking the empty option before selecting the squat and starting keeps the
  invariant; so does selecting the squat and starting; picking the empty option during the
  evaluation breaks it.
\<close>

theorem session_invariant_unless_deselected_while_evaluating_witness:
  "session_inv example_app
   \<and> selections_guarded [SelectExercise [], SelectExercise ''a'', Start] example_app
   \<and> isEvaluating (run_intents [SelectExercise [], SelectExercise ''a'', Start] example_app)
   \<and> isConnected (run_intents [SelectExercise [], SelectExercise ''a'', Start] example_app)
   \<and> session_inv (run_intents [SelectExercise [], SelectExercise ''a'', Start] example_app)
   \<and> resolves (actions (actionSelector example_app)) ''a''
   \<and> selections_guarded [SelectExercise ''a'', Start] example_app
   \<and> session_inv example_evaluating
   \<and> deselects (actions (actionSelector example_evaluating)) []
   \<and> isEvaluating (intent_step (SelectExercise []) example_evaluating)
   \<and> selectedAction (actionSelector (intent_step (SelectExercise []) example_evaluating)) = Some JNull
   \<and> \<not> session_inv (intent_step (SelectExercise []) example_evaluating)"
proof -
  have i: "session_inv example_app"
    by (simp add: session_inv_def example_app_def)
  have g: "selections_guarded [SelectExercise [], SelectExercise ''a'', Start] example_app"
    by (simp add: change_frame example_app_def)
  have e: "isEvaluating example_evaluating"
    by (simp add: example_evaluating_eq)
  have j: "session_inv example_evaluating"
    by (simp add: session_inv_def example_evaluating_eq example_app_def isConnected_def squat_def)
  have r: "resolves (actions (actionSelector example_app)) ''a''"
    by (simp add: resolves_def example_app_def actions_find_def squat_def)
  have d: "deselects (actions (actionSelector example_evaluating)) []"
    by (simp add: deselects_def)
  show ?thesis
    using session_invariant_unless_deselected_while_evaluating
            [OF i, of "[SelectExercise [], SelectExercise ''a'', Start]" "[]"]
      session_invariant_unless_deselected_while_evaluating
            [OF i, of "[SelectExercise ''a'', Start]" "[]"]
      session_invariant_unless_deselected_while_evaluating [OF j, of "[]" "[]"]
      i g e j r d
    by (simp add: example_everyday_run
          del: run_intents.simps selections_guarded.simps intent_step.simps)
qed

section \<open>Catalogue refresh\<close>




section \<open>The result sink\<close>

text \<open>
  C5. Let any run of wire texts arrive, of whatever kinds.
  \<^item> While the session is evaluating, the calls into the sink made during the run are
    exactly one for each text that parses to a \<open>result\<close> or a \<open>processed_frame\<close> message,
    in arrival order and with that message's payload; the images handed to the renderer
    are exactly the \<open>data\<close> payloads of the frames, in arrival order; and the session is
    still evaluating afterwards.
  \<^item> While evaluating, after a run that ends in a \<open>result\<close> with a count, a stage string
    and an angle number, the statistics display shows that count, the stage in upper case
    with its colour, and the angle to one decimal; a text that is not a \<open>result\<close> leaves the
    statistics display as the run before it left it.
  \<^item> While the session is not evaluating, the run adds no call and no image and leaves the
    statistics display as it was; a run made only of \<open>result\<close> and \<open>processed_frame\<close>
    messages leaves the whole state as it was. Every such message is dropped.
  \<^item> In particular (for a state whose \<open>connected\<close> flag is consistent with the socket)
    messages arriving after \<open>stopEvaluation\<close> add no call and no image, and leave the
    displayed count, stage and angle at their reset values.
\<close>

theorem results_reach_display_once_in_order:
  "sink (run_messages parse raws s) =
     sink s @ (if isEvaluating s then deliveries parse raws else [])
   \<and> imageSources (run_messages parse raws s) =
     imageSources s @ (if isEvaluating s then frame_sources parse raws else [])
   \<and> isEvaluating (run_messages parse raws s) = isEvaluating s
   \<and> (isEvaluating s \<and> parse raw = Some m \<and> member m ''type'' = Some (JStr ''result'')
        \<and> member m ''count'' = Some c \<and> member m ''stage'' = Some (JStr st)
        \<and> member m ''angle'' = Some (JNum a) \<longrightarrow>
        stats_display (run_messages parse (raws @ [raw]) s) =
          (ToString (Some c), UpperCase st, stage_colour st, Fixed1 a))
   \<and> ((case parse raw of Some m \<Rightarrow> member m ''type'' \<noteq> Some (JStr ''result'') | None \<Rightarrow> True) \<longrightarrow>
        stats_display (run_messages parse (raws @ [raw]) s) = stats_display (run_messages parse raws s))
   \<and> (\<not> isEvaluating s \<longrightarrow> stats_display (run_messages parse raws s) = stats_display s)
   \<and> (\<not> isEvaluating s \<and> sink_texts parse raws \<longrightarrow> run_messages parse raws s = s)
   \<and> (transport_consistent s \<longrightarrow>
        sink (run_messages parse raws (snd (stopEvaluation s))) = sink s
        \<and> imageSources (run_messages parse raws (snd (stopEvaluation s))) = imageSources s
        \<and> stats_display (run_messages parse raws (snd (stopEvaluation s))) =
            (Lit ''0'', Lit ''-'', ''#2196F3'', Lit (''0.0'' @ degree_sign)))"
proof -
  have 4: "isEvaluating s \<and> parse raw = Some m \<and> member m ''type'' = Some (JStr ''result'')
        \<and> member m ''count'' = Some c \<and> member m ''stage'' = Some (JStr st)
        \<and> member m ''angle'' = Some (JNum a) \<longrightarrow>
        stats_display (run_messages parse (raws @ [raw]) s) =
          (ToString (Some c), UpperCase st, stage_colour st, Fixed1 a)"
    using onmessage_display_result [of "run_messages parse raws s" parse raw m c st a]
    by (simp add: run_messages_append evaluating_run)
  have 5: "(case parse raw of Some m \<Rightarrow> member m ''type'' \<noteq> Some (JStr ''result'') | None \<Rightarrow> True) \<longrightarrow>
        stats_display (run_messages parse (raws @ [raw]) s) = stats_display (run_messages parse raws s)"
    using onmessage_display_kept [of "run_messages parse raws s" parse raw]
    by (simp add: run_messages_append)
  have 8: "transport_consistent s \<longrightarrow>
        sink (run_messages parse raws (snd (stopEvaluation s))) = sink s
        \<and> imageSources (run_messages parse raws (snd (stopEvaluation s))) = imageSources s
        \<and> stats_display (run_messages parse raws (snd (stopEvaluation s))) =
            (Lit ''0'', Lit ''-'', ''#2196F3'', Lit (''0.0'' @ degree_sign))"
    using run_display_dropped [of "snd (stopEvaluation s)" parse raws] evaluating_stop [of s]
      stop_stats_display [of s] stop_sink [of s]
    by (simp add: run_sink run_images)
  show ?thesis
    using 4 5 8 run_display_dropped [of s parse raws] run_dropped [of parse raws s]
    by (simp add: run_sink run_images evaluating_run del: run_messages.simps)
qed

text \<open>
  Instances, with the specification's \<open>result\<close> message and a frame among an unknown message
  and a text that is not JSON: delivered once each and in order during an evaluation, with
  the display showing the result; dropped without an evaluation; dropped after a stop.
\<close>

theorem results_reach_display_once_in_order_witness:
  "isEvaluating example_evaluating
   \<and> sink (run_messages example_parse [pose_text, result_text, ''{bad'', frame_text] example_evaluating) =
       [Stats (Some (JNum 3)) (Some (JStr ''up'')) (Some (JNum 142.7)), Frame frame_message]
   \<and> imageSources
        (run_messages example_parse [pose_text, result_text, ''{bad'', frame_text] example_evaluating) =
       [Some (JStr ''/9j/4AAQ'')]
   \<and> stats_display (run_messages example_parse ([pose_text, frame_text] @ [result_text]) example_evaluating) =
       (ToString (Some (JNum 3)), UpperCase ''up'', ''#4CAF50'', Fixed1 142.7)
   \<and> sink (run_messages example_parse [pose_text, result_text, ''{bad'', frame_text] example_selected) = []
   \<and> imageSources
        (run_messages example_parse [pose_text, result_text, ''{bad'', frame_text] example_selected) = []
   \<and> stats_display
        (run_messages example_parse [pose_text, result_text, ''{bad'', frame_text] example_selected) =
       (Lit ''0'', Lit ''-'', ''#2196F3'', Lit (''0.0'' @ degree_sign))
   \<and> transport_consistent example_evaluating
   \<and> stats_display
        (run_messages example_parse [result_text, frame_text] (snd (stopEvaluation example_evaluating))) =
       (Lit ''0'', Lit ''-'', ''#2196F3'', Lit (''0.0'' @ degree_sign))"
proof -
  have e: "isEvaluating example_evaluating" "sink example_evaluating = []"
    "imageSources example_evaluating = []"
    by (simp_all add: example_evaluating_eq example_app_def)
  have n: "\<not> isEvaluating example_selected" "sink example_selected = []"
    "imageSources example_selected = []"
    "stats_display example_selected = (Lit ''0'', Lit ''-'', ''#2196F3'', Lit (''0.0'' @ degree_sign))"
    by (simp_all add: example_selected_eq example_app_def stats_display_def)
  show ?thesis
    using results_reach_display_once_in_order
            [of example_parse "[pose_text, result_text, ''{bad'', frame_text]" example_evaluating]
      results_reach_display_once_in_order
            [of example_parse "[pose_text, frame_text]" example_evaluating result_text
                result_message "JNum 3" "''up''" "142.7"]
      results_reach_display_once_in_order
            [of example_parse "[pose_text, result_text, ''{bad'', frame_text]" example_selected]
      results_reach_display_once_in_order
            [of example_parse "[result_text, frame_text]" example_evaluating]
      e n example_evaluating_consistent example_mixed_run example_result_members
    by (simp add: stage_colour_def
          del: run_messages.simps deliveries.simps frame_sources.simps sink_texts.simps)
qed

section \<open>Malformed and unknown messages\<close>

text \<open>
  C6. For every wire text, whatever \<open>JSON.parse\<close> makes of it, the dispatch of the message
  to the \<open>onMessage\<close> listeners completes normally. Over any run of wire texts the socket's
  ready state, the \<open>connected\<close> flag and the evaluating flag are as before, so no inbound
  message ends the connection or the session. A text that is not JSON changes nothing but
  the console (one line from \<open>handleWebSocketMessage\<close> and one from each pending catalogue
  listener), and a message whose \<open>type\<close> is missing or has no case in the \<open>switch\<close>
  changes nothing but the console, where it is logged as unknown.
\<close>

theorem inbound_handling_never_raises:
  "fst (socket_onmessage parse raw s) = Normal ()
   \<and> socket (wsClient (run_messages parse raws s)) = socket (wsClient s)
   \<and> connected (wsClient (run_messages parse raws s)) = connected (wsClient s)
   \<and> isEvaluating (run_messages parse raws s) = isEvaluating s
   \<and> (parse raw = None \<longrightarrow>
        snd (socket_onmessage parse raw s) =
          s\<lparr>console := console s @ Message_failed SyntaxError #
                 replicate (fetchListeners s) (Fetch_message_failed SyntaxError)\<rparr>)
   \<and> (\<forall>m ty. parse raw = Some m \<and> get_prop (Some m) ''type'' = Normal ty \<and> \<not> known_type ty \<longrightarrow>
        snd (socket_onmessage parse raw s) = s\<lparr>console := console s @ [Unknown_type ty]\<rparr>)"
proof -
  have "session_core (run_messages parse raws s) = session_core s"
    by (rule core_run_messages)
  then show ?thesis
    using onmessage_normal [of parse raw s]
    by (auto simp: session_core_def onmessage_unparsed onmessage_unknown)
qed

text \<open>
  Instances during an evaluation: a text that is not JSON, a message of an unknown type, a
  message without a type, and a run that also contains \<open>null\<close>.
\<close>

theorem inbound_handling_never_raises_witness:
  "fst (socket_onmessage example_parse ''{bad'' example_evaluating) = Normal ()
   \<and> example_parse ''{bad'' = None
   \<and> snd (socket_onmessage example_parse ''{bad'' example_evaluating) =
       example_evaluating\<lparr>console := [Message_failed SyntaxError, Fetch_message_failed SyntaxError]\<rparr>
   \<and> snd (socket_onmessage example_parse pose_text example_evaluating) =
       example_evaluating\<lparr>console := [Unknown_type (Some (JStr ''pose''))]\<rparr>
   \<and> snd (socket_onmessage example_parse ''{}'' example_evaluating) =
       example_evaluating\<lparr>console := [Unknown_type None]\<rparr>
   \<and> isEvaluating (run_messages example_parse [''{bad'', pose_text, ''{}'', ''null''] example_evaluating)
   \<and> socket (wsClient (run_messages example_parse [''{bad'', pose_text, ''{}'', ''null''] example_evaluating))
       = Some OPEN"
proof -
  have p1: "example_parse ''{bad'' = None"
    by (simp add: example_parse_def result_text_def frame_text_def pose_text_def)
  have p2: "example_parse pose_text = Some (JObj [(''type'', JStr ''pose'')])
            \<and> get_prop (Some (JObj [(''type'', JStr ''pose'')])) ''type'' = Normal (Some (JStr ''pose''))
            \<and> \<not> known_type (Some (JStr ''pose''))"
    by (simp add: example_parse_def result_text_def frame_text_def pose_text_def known_type_def)
  have p3: "example_parse ''{}'' = Some (JObj [])
            \<and> get_prop (Some (JObj [])) ''type'' = Normal None \<and> \<not> known_type None"
    by (simp add: example_parse_def result_text_def frame_text_def pose_text_def known_type_def)
  have e: "isEvaluating example_evaluating" "socket (wsClient example_evaluating) = Some OPEN"
    "console example_evaluating = []" "fetchListeners example_evaluating = 1"
    by (simp_all add: example_evaluating_eq example_app_def)
  show ?thesis
    using inbound_handling_never_raises
            [of example_parse "''{bad''" example_evaluating "[''{bad'', pose_text, ''{}'', ''null'']"]
      inbound_handling_never_raises [of example_parse pose_text example_evaluating "[]"]
      inbound_handling_never_raises [of example_parse "''{}''" example_evaluating "[]"]
      p1 p2 p3 e
    by (simp del: run_messages.simps)
qed

section \<open>The catalogue fetch\<close>

text \<open>
  C9. What the code does when the catalogue does not arrive. The five-second timer rejects
  a pending fetch, which logs the failure and issues one REST request. When that request
  fails (\<open>fetch\<close> rejects, or the response is not OK), \<open>fetchActionsRest\<close> catches the failure
  itself and resolves with an empty list, so the \<open>catch\<close> of main.js:254-257 never runs:
  the fallback completes normally with one more console line and, whatever the outcome of
  the request, without any alert. The terminal failure that the claim promises to the user
  is therefore never surfaced.
\<close>

theorem rest_failure_is_not_surfaced:
  "fetch_timeout s =
     (Normal (), if fetchPromise s = Pending
                 then s\<lparr>fetchPromise := Rejected, console := console s @ [Fetch_failed],
                        restRequests := Suc (restRequests s)\<rparr>
                 else s)
   \<and> fetchActions_fallback Rest_rejected s = (Normal (), s\<lparr>console := console s @ [Rest_failed]\<rparr>)
   \<and> fetchActions_fallback Rest_not_ok s = (Normal (), s\<lparr>console := console s @ [Rest_failed]\<rparr>)
   \<and> fst (fetchActions_fallback outcome s) = Normal ()
   \<and> alerts (snd (fetchActions_fallback outcome s)) = alerts s"
  using fallback_never_alerts [of outcome s]
  by (simp add: fetch_timeout_def fetchActions_rejected_def fetchActions_fallback_def
        fetchActionsRest_failed proc_defs)

end
